theory Spec2Isabelle
  imports Complex_Main "HOL-Library.Char_ord" "HOL-Library.List_Lexorder" "HOL-Library.Multiset"
    "HOL-Library.Word"
begin

section \<open>Scoring: \<open>calculateAndShowResults\<close> and \<open>checkIfPassed\<close> of \<open>ExamSystem\<close>\<close>

text \<open>
  The exam front end keeps the answers of the running exam in the object
  \<open>userAnswers\<close> (question id to letter). \<open>calculateAndShowResults\<close> tallies them per
  thematic unit (UT), computes the percentage and the verdict, and hands them to
  \<open>displayResults\<close>. A JavaScript exception (\<open>TypeError\<close>: a property of \<open>undefined\<close> is
  read, or a method that is not there is called) is the left summand of the result.
\<close>

datatype error = TypeError

record ut_result =
  correct :: nat
  total :: nat
  errors :: nat

type_synonym ut_results = "nat \<rightharpoonup> ut_result"

record question_detail =
  question_id :: string
  ut_number :: nat
  opcion_a :: "string option"
  opcion_b :: "string option"
  opcion_c :: "string option"
  opcion_d :: "string option"
  respuesta_correcta :: "string option"

record exam =
  questions :: "string list"
  questionDetails :: "question_detail list"

type_synonym user_answers = "string \<rightharpoonup> string"

record tally =
  t_correctAnswers :: nat
  t_totalAnswered :: nat
  t_utResults :: ut_results

record results =
  correctAnswers :: nat
  totalAnswered :: nat
  totalQuestions :: nat
  percentage :: rat
  passed :: bool
  utResults :: ut_results

text \<open>The rows of the table \<open>ut_configuration\<close> (its two text columns left out).\<close>

record ut_config =
  cfg_ut_number :: nat
  questions_per_exam :: nat
  max_errors_allowed :: "nat option"
  is_critical :: bool

definition ut_row :: "nat \<Rightarrow> nat \<Rightarrow> nat option \<Rightarrow> bool \<Rightarrow> ut_config" where
  "ut_row n q m c =
     \<lparr>cfg_ut_number = n, questions_per_exam = q, max_errors_allowed = m, is_critical = c\<rparr>"

definition ut_configuration :: "ut_config list" where
  "ut_configuration =
     [ut_row 1 4 None False,
      ut_row 2 2 None False,
      ut_row 3 4 None False,
      ut_row 4 2 None False,
      ut_row 5 5 (Some 2) True,
      ut_row 6 10 (Some 5) True,
      ut_row 7 2 None False,
      ut_row 8 3 None False,
      ut_row 9 4 None False,
      ut_row 10 5 None False,
      ut_row 11 4 (Some 2) True]"

text \<open>\<open>if (userAnswer)\<close>: an absent entry and the empty string are both falsy.\<close>

definition truthy :: "string option \<Rightarrow> bool" where
  "truthy a = (case a of None \<Rightarrow> False | Some s \<Rightarrow> s \<noteq> [])"

definition zero_ut :: ut_result where
  "zero_ut = \<lparr>correct = 0, total = 0, errors = 0\<rparr>"

text \<open>\<open>for (let i = 1; i <= 11; i++) utResults[i] = { correct: 0, total: 0, errors: 0 }\<close>\<close>

definition init_utResults :: ut_results where
  "init_utResults = fold (\<lambda>i m. m(i \<mapsto> zero_ut)) [1..<12] Map.empty"

definition init_tally :: tally where
  "init_tally = \<lparr>t_correctAnswers = 0, t_totalAnswered = 0, t_utResults = init_utResults\<rparr>"

text \<open>
  The body of the \<open>forEach\<close> over \<open>questionDetails\<close>. \<open>utResults[utNumber].total++\<close>
  throws when the unit has no counter.
\<close>

definition tally_question :: "user_answers \<Rightarrow> tally \<Rightarrow> question_detail \<Rightarrow> error + tally" where
  "tally_question ua t q =
     (let userAnswer = ua (question_id q); utNumber = ut_number q in
      case t_utResults t utNumber of
        None \<Rightarrow> Inl TypeError
      | Some r0 \<Rightarrow>
          let r = r0\<lparr>total := total r0 + 1\<rparr> in
          if truthy userAnswer then
            if userAnswer = respuesta_correcta q then
              Inr (t\<lparr>t_correctAnswers := t_correctAnswers t + 1,
                     t_totalAnswered := t_totalAnswered t + 1,
                     t_utResults := (t_utResults t)(utNumber \<mapsto> r\<lparr>correct := correct r + 1\<rparr>)\<rparr>)
            else
              Inr (t\<lparr>t_totalAnswered := t_totalAnswered t + 1,
                     t_utResults := (t_utResults t)(utNumber \<mapsto> r\<lparr>errors := errors r + 1\<rparr>)\<rparr>)
          else Inr (t\<lparr>t_utResults := (t_utResults t)(utNumber \<mapsto> r)\<rparr>))"

fun tally_all :: "user_answers \<Rightarrow> tally \<Rightarrow> question_detail list \<Rightarrow> error + tally" where
  "tally_all ua t [] = Inr t"
| "tally_all ua t (q # qs) =
     (case tally_question ua t q of Inl e \<Rightarrow> Inl e | Inr t' \<Rightarrow> tally_all ua t' qs)"

text \<open>
  \<open>const criticalUTs = { 5: 2, 6: 5, 11: 2 }\<close>; \<open>Object.entries\<close> lists integer keys in
  ascending order.
\<close>

definition criticalUTs :: "(nat \<times> nat) list" where
  "criticalUTs = [(5, 2), (6, 5), (11, 2)]"

fun check_critical :: "ut_results \<Rightarrow> (nat \<times> nat) list \<Rightarrow> error + bool" where
  "check_critical utr [] = Inr True"
| "check_critical utr ((utNumber, maxErrors) # rest) =
     (case utr utNumber of
        None \<Rightarrow> Inl TypeError
      | Some r \<Rightarrow> if errors r > maxErrors then Inr False else check_critical utr rest)"

text \<open>
  The percentage is a JavaScript double; the model carries the exact rational value of
  the quotient. For the counts of an exam the rounding of the double does not change the
  outcome of the comparison with 65.
\<close>

definition checkIfPassed :: "rat \<Rightarrow> ut_results \<Rightarrow> error + bool" where
  "checkIfPassed pct utr =
     (if pct < 65 then Inr False else check_critical utr criticalUTs)"

definition percentage_of :: "nat \<Rightarrow> nat \<Rightarrow> rat" where
  "percentage_of correctAns answered =
     (if answered > 0 then of_nat correctAns / of_nat answered * 100 else 0)"

definition make_results :: "exam \<Rightarrow> tally \<Rightarrow> rat \<Rightarrow> bool \<Rightarrow> results" where
  "make_results ex t pct p =
     \<lparr>correctAnswers = t_correctAnswers t,
      totalAnswered = t_totalAnswered t,
      totalQuestions = length (questions ex),
      percentage = pct,
      passed = p,
      utResults = t_utResults t\<rparr>"

definition score_tally :: "exam \<Rightarrow> tally \<Rightarrow> error + results" where
  "score_tally ex t =
     (let pct = percentage_of (t_correctAnswers t) (t_totalAnswered t) in
      case checkIfPassed pct (t_utResults t) of
        Inl e \<Rightarrow> Inl e
      | Inr p \<Rightarrow> Inr (make_results ex t pct p))"

text \<open>
  The first part of \<open>calculateAndShowResults\<close>, up to the call of \<open>displayResults\<close>: the
  object literal that the function builds and hands to \<open>displayResults\<close>, for the exam
  \<open>this.currentExam\<close> and the answers \<open>this.userAnswers\<close>.
\<close>

definition calculated_results :: "exam \<Rightarrow> user_answers \<Rightarrow> error + results" where
  "calculated_results ex ua =
     (case tally_all ua init_tally (questionDetails ex) of
        Inl e \<Rightarrow> Inl e
      | Inr t \<Rightarrow> score_tally ex t)"

text \<open>
  \<open>displayResults(results)\<close> reads the properties \<open>passed\<close>, \<open>score_percentage\<close>,
  \<open>correct_answers\<close>, \<open>total_questions\<close>, \<open>duration_minutes\<close> and \<open>ut_results\<close> of its
  argument, the names of the results the server sends; a property the argument does not
  have is \<open>undefined\<close>.
\<close>

record displayed_object =
  obj_passed :: bool
  score_percentage :: "rat option"
  correct_answers :: "nat option"
  total_questions :: "nat option"
  duration_minutes :: "nat option"
  ut_results :: "ut_results option"

text \<open>
  \<open>generateUTResultsHTML(utResults)\<close> reads \<open>utResults[i]\<close> and then \<open>ut.total\<close> and
  \<open>ut.correct\<close> for the units 1 to 11, and throws when \<open>utResults\<close> or one of its
  entries is \<open>undefined\<close>. The result keeps the entries formatted, in order, and leaves
  the markup out.
\<close>

fun ut_rows :: "ut_results \<Rightarrow> nat list \<Rightarrow> error + ut_result list" where
  "ut_rows utr [] = Inr []"
| "ut_rows utr (i # rest) =
     (case utr i of
        None \<Rightarrow> Inl TypeError
      | Some ut \<Rightarrow> (case ut_rows utr rest of Inl e \<Rightarrow> Inl e | Inr rows \<Rightarrow> Inr (ut # rows)))"

definition generateUTResultsHTML :: "ut_results option \<Rightarrow> error + ut_result list" where
  "generateUTResultsHTML utResults0 =
     (case utResults0 of None \<Rightarrow> Inl TypeError | Some utr \<Rightarrow> ut_rows utr [1..<12])"

text \<open>
  What \<open>displayResults\<close> writes into the summary before \<open>showResults\<close> shows the results
  section: the verdict and the rows of the units. The template is evaluated before it is
  assigned, so an exception of \<open>generateUTResultsHTML\<close> leaves the page as it was.
\<close>

record summary =
  summary_passed :: bool
  summary_rows :: "ut_result list"

definition displayResults :: "displayed_object \<Rightarrow> error + summary" where
  "displayResults res =
     (case generateUTResultsHTML (ut_results res) of
        Inl e \<Rightarrow> Inl e
      | Inr rows \<Rightarrow> Inr \<lparr>summary_passed = obj_passed res, summary_rows = rows\<rparr>)"

text \<open>
  The object literal of \<open>calculateAndShowResults\<close> as \<open>displayResults\<close> reads it: its
  properties are \<open>correctAnswers\<close>, \<open>totalAnswered\<close>, \<open>totalQuestions\<close>, \<open>percentage\<close>,
  \<open>passed\<close> and \<open>utResults\<close>, so of the properties read only \<open>passed\<close> is there.
\<close>

definition as_displayed :: "results \<Rightarrow> displayed_object" where
  "as_displayed r =
     \<lparr>obj_passed = passed r, score_percentage = None, correct_answers = None,
      total_questions = None, duration_minutes = None, ut_results = None\<rparr>"

definition calculateAndShowResults :: "exam \<Rightarrow> user_answers \<Rightarrow> error + summary" where
  "calculateAndShowResults ex ua =
     (case calculated_results ex ua of
        Inl e \<Rightarrow> Inl e
      | Inr r \<Rightarrow> displayResults (as_displayed r))"

subsection \<open>Vocabulary for the scoring properties\<close>

definition answered :: "user_answers \<Rightarrow> question_detail \<Rightarrow> bool" where
  "answered ua q = truthy (ua (question_id q))"

definition answered_right :: "user_answers \<Rightarrow> question_detail \<Rightarrow> bool" where
  "answered_right ua q = (answered ua q \<and> ua (question_id q) = respuesta_correcta q)"

definition answered_wrong :: "user_answers \<Rightarrow> question_detail \<Rightarrow> bool" where
  "answered_wrong ua q = (answered ua q \<and> ua (question_id q) \<noteq> respuesta_correcta q)"

definition count_where :: "('a \<Rightarrow> bool) \<Rightarrow> 'a list \<Rightarrow> nat" where
  "count_where P xs = length (filter P xs)"

definition ut_tally :: "user_answers \<Rightarrow> question_detail list \<Rightarrow> nat \<Rightarrow> ut_result" where
  "ut_tally ua qs n =
     \<lparr>correct = count_where (\<lambda>q. ut_number q = n \<and> answered_right ua q) qs,
      total = count_where (\<lambda>q. ut_number q = n) qs,
      errors = count_where (\<lambda>q. ut_number q = n \<and> answered_wrong ua q) qs\<rparr>"

definition add_ut :: "ut_result \<Rightarrow> ut_result \<Rightarrow> ut_result" where
  "add_ut a b = \<lparr>correct = correct a + correct b, total = total a + total b,
                 errors = errors a + errors b\<rparr>"

definition final_utResults :: "user_answers \<Rightarrow> question_detail list \<Rightarrow> ut_results" where
  "final_utResults ua qs =
     (\<lambda>n. if 1 \<le> n \<and> n \<le> 11 then Some (ut_tally ua qs n) else None)"

definition result_percentage :: "error + results \<Rightarrow> rat option" where
  "result_percentage x = (case x of Inl e \<Rightarrow> None | Inr r \<Rightarrow> Some (percentage r))"

definition result_errors :: "error + results \<Rightarrow> nat \<Rightarrow> nat option" where
  "result_errors x n = (case x of Inl e \<Rightarrow> None | Inr r \<Rightarrow> map_option errors (utResults r n))"

definition result_passed :: "error + results \<Rightarrow> bool option" where
  "result_passed x = (case x of Inl e \<Rightarrow> None | Inr r \<Rightarrow> Some (passed r))"

definition critical_rows :: "(nat \<times> nat option) list" where
  "critical_rows =
     map (\<lambda>c. (cfg_ut_number c, max_errors_allowed c)) (filter is_critical ut_configuration)"

text \<open>
  The scoring rule in the words of the specification: the percentage over all the
  questions of the exam, and a topic's errors counting every question of the topic that
  was not answered correctly.
\<close>

definition spec_overall_percentage :: "user_answers \<Rightarrow> question_detail list \<Rightarrow> rat" where
  "spec_overall_percentage ua qs =
     of_nat (count_where (answered_right ua) qs) / of_nat (length qs) * 100"

definition spec_topic_errors :: "user_answers \<Rightarrow> question_detail list \<Rightarrow> nat \<Rightarrow> nat" where
  "spec_topic_errors ua qs n =
     count_where (\<lambda>q. ut_number q = n \<and> \<not> answered_right ua q) qs"

text \<open>A two-question exam in unit 1 of which only the first question is answered.\<close>

definition detail :: "string \<Rightarrow> nat \<Rightarrow> string \<Rightarrow> question_detail" where
  "detail qid n letter =
     \<lparr>question_id = qid, ut_number = n, opcion_a = Some ''uno'', opcion_b = Some ''dos'',
      opcion_c = Some ''tres'', opcion_d = None, respuesta_correcta = Some letter\<rparr>"

definition exam_two :: exam where
  "exam_two = \<lparr>questions = [''q1'', ''q2''],
                 questionDetails = [detail ''q1'' 1 ''a'', detail ''q2'' 1 ''b'']\<rparr>"

definition answers_one :: user_answers where
  "answers_one = [''q1'' \<mapsto> ''a'']"

text \<open>
  An exam of one question in unit 1 and five questions in unit 5, of which only the first
  question is answered.
\<close>

definition exam_six :: exam where
  "exam_six =
     \<lparr>questions = [''q1'', ''q2'', ''q3'', ''q4'', ''q5'', ''q6''],
      questionDetails =
        [detail ''q1'' 1 ''a'', detail ''q2'' 5 ''b'', detail ''q3'' 5 ''b'',
         detail ''q4'' 5 ''b'', detail ''q5'' 5 ''b'', detail ''q6'' 5 ''b'']\<rparr>"

section \<open>The question viewer: \<open>deduplicateQuestions\<close>\<close>

text \<open>
  A question of the viewer, with the properties the functions below read. Absent
  (\<open>undefined\<close> or \<open>null\<close>) properties are \<open>None\<close>.
\<close>

record opcion =
  letra :: string
  texto :: "string option"

record aparicion =
  ap_examen_titulacion :: string
  ap_examen_convocatoria :: string
  ap_examen_test :: string
  ap_numero :: nat

record otra_aparicion =
  oa_hash_pregunta :: "string option"
  oa_convocatoria :: string
  oa_numero_test :: string

record pregunta =
  numero :: nat
  enunciado :: "string option"
  opciones :: "opcion list option"
  hash_pregunta :: "string option"
  hash_explicacion :: "string option"
  es_duplicada :: bool
  otras_apariciones :: "otra_aparicion list option"
  examen_titulacion :: string
  examen_convocatoria :: string
  examen_test :: string
  todas_apariciones :: "aparicion list option"

text \<open>
  A JavaScript \<open>Map\<close> (and the own string keys of an object) keeps its entries in
  insertion order: \<open>set\<close> on a key that is present replaces the value in place, on a new
  key it appends the entry.
\<close>

definition js_has :: "('k \<times> 'v) list \<Rightarrow> 'k \<Rightarrow> bool" where
  "js_has m k = (k \<in> set (map fst m))"

fun js_set :: "('k \<times> 'v) list \<Rightarrow> 'k \<Rightarrow> 'v \<Rightarrow> ('k \<times> 'v) list" where
  "js_set [] k v = [(k, v)]"
| "js_set ((k', v') # m) k v = (if k' = k then (k, v) # m else (k', v') # js_set m k v)"

definition js_values :: "('k \<times> 'v) list \<Rightarrow> 'v list" where
  "js_values m = map snd m"

definition aparicion_of :: "pregunta \<Rightarrow> aparicion" where
  "aparicion_of q =
     \<lparr>ap_examen_titulacion = examen_titulacion q,
      ap_examen_convocatoria = examen_convocatoria q,
      ap_examen_test = examen_test q,
      ap_numero = numero q\<rparr>"

text \<open>The body of the \<open>forEach\<close>; \<open>hash &&\<close> skips an absent and an empty hash.\<close>

definition dedup_visit ::
  "pregunta list \<Rightarrow> (string \<times> pregunta) list \<Rightarrow> pregunta \<Rightarrow> (string \<times> pregunta) list" where
  "dedup_visit all_questions uniqueQuestionsMap question =
     (case hash_pregunta question of
        None \<Rightarrow> uniqueQuestionsMap
      | Some hash \<Rightarrow>
          if hash \<noteq> [] \<and> \<not> js_has uniqueQuestionsMap hash then
            let allOccurrences = filter (\<lambda>q. hash_pregunta q = Some hash) all_questions;
                enhancedQuestion =
                  question\<lparr>todas_apariciones := Some (map aparicion_of allOccurrences)\<rparr>
            in js_set uniqueQuestionsMap hash enhancedQuestion
          else uniqueQuestionsMap)"

definition deduplicateQuestions :: "pregunta list \<Rightarrow> pregunta list" where
  "deduplicateQuestions all_questions =
     js_values (fold (\<lambda>q m. dedup_visit all_questions m q) all_questions [])"

subsection \<open>Vocabulary for the deduplication property\<close>

text \<open>
  Position \<open>i\<close> holds a first occurrence when its hash is present and no earlier
  question has the same hash.
\<close>

definition first_occurrence :: "pregunta list \<Rightarrow> nat \<Rightarrow> bool" where
  "first_occurrence qs i =
     (truthy (hash_pregunta (qs ! i)) \<and>
      hash_pregunta (qs ! i) \<notin> set (map hash_pregunta (take i qs)))"

definition with_occurrences :: "pregunta list \<Rightarrow> pregunta \<Rightarrow> pregunta" where
  "with_occurrences qs q =
     q\<lparr>todas_apariciones :=
         Some (map aparicion_of (filter (\<lambda>q'. hash_pregunta q' = hash_pregunta q) qs))\<rparr>"

definition viewer_question :: "nat \<Rightarrow> string option \<Rightarrow> string \<Rightarrow> pregunta" where
  "viewer_question n h test =
     \<lparr>numero = n, enunciado = Some ''Que es la eslora'', opciones = None, hash_pregunta = h,
      hash_explicacion = None, es_duplicada = False,
      otras_apariciones = None, examen_titulacion = ''PER'', examen_convocatoria = ''2024-06'',
      examen_test = test, todas_apariciones = None\<rparr>"

definition viewer_list :: "pregunta list" where
  "viewer_list =
     [viewer_question 1 (Some ''aa'') ''01'', viewer_question 2 None ''01'',
      viewer_question 3 (Some ''bb'') ''01'', viewer_question 7 (Some ''aa'') ''02'',
      viewer_question 8 (Some []) ''02'']"

text \<open>The map entry the loop stores for position \<open>i\<close>.\<close>

definition dedup_entry :: "pregunta list \<Rightarrow> pregunta list \<Rightarrow> nat \<Rightarrow> string \<times> pregunta" where
  "dedup_entry allq qs i = (the (hash_pregunta (qs ! i)), with_occurrences allq (qs ! i))"

section \<open>Content identity: \<open>calculateQuestionHash\<close> and \<open>calculateQuestionHashSync\<close>\<close>

text \<open>
  A string is its list of code units. The model covers the code units below 256 (ASCII and
  Latin-1); \<open>code\<close> is the number of a unit.
\<close>

definition code :: "char \<Rightarrow> nat" where
  "code c = of_char c"

text \<open>
  \<open>toLowerCase\<close> changes \<open>A\<close> to \<open>Z\<close> and the Latin-1 capitals (192 to 222 but the
  multiplication sign 215), each to the unit 32 above it.
\<close>

definition is_upper :: "char \<Rightarrow> bool" where
  "is_upper c = ((65 \<le> code c \<and> code c \<le> 90) \<or> (192 \<le> code c \<and> code c \<le> 222 \<and> code c \<noteq> 215))"

definition toLowerCase_char :: "char \<Rightarrow> char" where
  "toLowerCase_char c = (if is_upper c then char_of (code c + 32) else c)"

definition toLowerCase :: "string \<Rightarrow> string" where
  "toLowerCase s = map toLowerCase_char s"

text \<open>The classes \<open>\w\<close> (\<open>[A-Za-z0-9_]\<close>) and \<open>\s\<close> of a regular expression.\<close>

definition is_word_char :: "char \<Rightarrow> bool" where
  "is_word_char c = ((48 \<le> code c \<and> code c \<le> 57) \<or> (65 \<le> code c \<and> code c \<le> 90) \<or> code c = 95
                     \<or> (97 \<le> code c \<and> code c \<le> 122))"

definition is_space_char :: "char \<Rightarrow> bool" where
  "is_space_char c = ((9 \<le> code c \<and> code c \<le> 13) \<or> code c = 32 \<or> code c = 160)"

text \<open>\<open>.replace(/[^\w\s]/g, ' ')\<close>\<close>

definition replace_punct :: "string \<Rightarrow> string" where
  "replace_punct s = map (\<lambda>c. if is_word_char c \<or> is_space_char c then c else CHR '' '') s"

text \<open>
  \<open>.replace(/\s+/g, ' ')\<close>: every maximal run of whitespace becomes one space. The flag
  says that the unit before was whitespace, so the run has its space already.
\<close>

fun collapse_spaces :: "bool \<Rightarrow> string \<Rightarrow> string" where
  "collapse_spaces inrun [] = []"
| "collapse_spaces inrun (c # cs) =
     (if is_space_char c
      then (if inrun then collapse_spaces True cs else CHR '' '' # collapse_spaces True cs)
      else c # collapse_spaces False cs)"

text \<open>\<open>.trim()\<close>\<close>

definition trim :: "string \<Rightarrow> string" where
  "trim s = rev (dropWhile is_space_char (rev (dropWhile is_space_char s)))"

text \<open>\<open>normalizarTexto\<close>; \<open>if (!texto) return ''\<close> covers the absent and the empty text.\<close>

definition normalizarTexto :: "string option \<Rightarrow> string" where
  "normalizarTexto txt =
     (case txt of
        None \<Rightarrow> []
      | Some t \<Rightarrow>
          if t = [] then []
          else trim (collapse_spaces False (replace_punct (toLowerCase t))))"

fun js_join :: "string \<Rightarrow> string list \<Rightarrow> string" where
  "js_join sep [] = []"
| "js_join sep [x] = x"
| "js_join sep (x # y # ys) = x @ sep @ js_join sep (y # ys)"

text \<open>
  The string that is hashed, the same in both functions. The default \<open>sort()\<close> orders
  strings by their code units, which is the lexicographic order of \<open>char list\<close>.
\<close>

definition contenido :: "pregunta \<Rightarrow> string" where
  "contenido p =
     (let enunciado0 = (case enunciado p of None \<Rightarrow> [] | Some e \<Rightarrow> e);
          opciones0 = (case opciones p of None \<Rightarrow> [] | Some os \<Rightarrow> os);
          enunciadoNorm = normalizarTexto (Some enunciado0);
          opcionesNorm =
            js_join ''|'' (sort (filter (\<lambda>t. t \<noteq> []) (map (\<lambda>op. normalizarTexto (texto op)) opciones0)))
      in enunciadoNorm @ ''|'' @ opcionesNorm)"

text \<open>
  The loop of \<open>calculateQuestionHashSync\<close>: \<open>hash = ((hash << 5) - hash) + char\<close>, cut to
  a signed 32-bit integer by \<open>hash & hash\<close>.
\<close>

definition hash_step :: "32 word \<Rightarrow> char \<Rightarrow> 32 word" where
  "hash_step h c = (push_bit 5 h - h) + of_nat (code c)"

definition simple_hash :: "string \<Rightarrow> 32 word" where
  "simple_hash s = foldl hash_step 0 s"

definition hex_digit :: "nat \<Rightarrow> char" where
  "hex_digit d = ''0123456789abcdef'' ! d"

text \<open>\<open>toString(16)\<close> of a natural number.\<close>

fun to_hex :: "nat \<Rightarrow> string" where
  "to_hex n = (if n < 16 then [hex_digit n] else to_hex (n div 16) @ [hex_digit (n mod 16)])"

definition padStart :: "nat \<Rightarrow> char \<Rightarrow> string \<Rightarrow> string" where
  "padStart n c s = replicate (n - length s) c @ s"

text \<open>
  \<open>calculateQuestionHashSync\<close> returns the hash the question carries when it has one, and
  \<open>Math.abs(hash).toString(16).padStart(16, '0')\<close> otherwise.
\<close>

definition calculateQuestionHashSync :: "pregunta \<Rightarrow> string" where
  "calculateQuestionHashSync p =
     (if truthy (hash_pregunta p) then the (hash_pregunta p)
      else padStart 16 (CHR ''0'') (to_hex (nat \<bar>sint (simple_hash (contenido p))\<bar>)))"

text \<open>
  \<open>calculateQuestionHash\<close> builds the same content and ends in
  \<open>this.sha256(contenido).substring(0, 16)\<close>. \<open>sha256\<close> is an \<open>async\<close> function, so the
  call returns a promise, which has no \<open>substring\<close>: the function throws for every
  question. Nothing in the viewer calls it.
\<close>

definition calculateQuestionHash :: "pregunta \<Rightarrow> error + string" where
  "calculateQuestionHash p = (let contenido0 = contenido p in Inl TypeError)"


subsection \<open>Vocabulary for the invariance of the fingerprint\<close>











definition opt :: "string \<Rightarrow> string \<Rightarrow> opcion" where
  "opt l t = \<lparr>letra = l, texto = Some t\<rparr>"

definition pregunta_eslora :: pregunta where
  "pregunta_eslora =
     \<lparr>numero = 1, enunciado = Some ''Que es la ESLORA?'',
      opciones = Some [opt ''a'' ''La longitud, de proa a popa'', opt ''b'' ''La anchura'',
                       opt ''c'' ''El calado.''],
      hash_pregunta = None, hash_explicacion = None, es_duplicada = False,
      otras_apariciones = None, examen_titulacion = ''PER'',
      examen_convocatoria = ''2024-06'', examen_test = ''01'', todas_apariciones = None\<rparr>"


section \<open>Exam assembly\<close>

text \<open>
  The assembler runs on the server, whose code is not among the sources; the sources hold
  its tables (\<open>ut_configuration\<close>, \<open>exam_questions\<close>). A question of the pool carries its
  id, its thematic unit and its content fingerprint.
\<close>

record 'fp pool_question =
  pq_question_id :: nat
  pq_ut_number :: nat
  pq_fingerprint :: 'fp

datatype assembly_error = InsufficientPoolError nat nat nat

text \<open>
  Modelled from the spec: the draw of one topic by the exam assembler, which is not in the
  sources. The candidates of the topic come in the order in which the random source
  draws them, without replacement; a candidate whose fingerprint is already in the exam
  under construction is rejected; the draw stops at the quota.
\<close>

fun draw :: "nat \<Rightarrow> 'fp list \<Rightarrow> 'fp pool_question list \<Rightarrow> 'fp pool_question list" where
  "draw 0 used candidates = []"
| "draw (Suc k) used [] = []"
| "draw (Suc k) used (c # candidates) =
     (if pq_fingerprint c \<in> set used then draw (Suc k) used candidates
      else c # draw k (pq_fingerprint c # used) candidates)"

text \<open>
  Modelled from the spec: the assembler's pass over the rows of the topic configuration,
  which is not in the sources. A topic with fewer acceptable candidates than its quota
  fails the whole assembly with the topic, the number available and the number required.
\<close>

fun assemble_topics ::
  "(nat \<Rightarrow> 'fp pool_question list) \<Rightarrow> 'fp list \<Rightarrow> ut_config list
   \<Rightarrow> assembly_error + 'fp pool_question list" where
  "assemble_topics byTopic used [] = Inr []"
| "assemble_topics byTopic used (row # rows) =
     (let picked = draw (questions_per_exam row) used (byTopic (cfg_ut_number row)) in
      if length picked < questions_per_exam row
      then Inl (InsufficientPoolError (cfg_ut_number row) (length picked) (questions_per_exam row))
      else case assemble_topics byTopic (map pq_fingerprint picked @ used) rows of
             Inl e \<Rightarrow> Inl e
           | Inr rest \<Rightarrow> Inr (picked @ rest))"

text \<open>
  Modelled from the spec: \<open>assemble\<close> of the exam assembler, which is not in the sources,
  over the eleven rows of \<open>ut_configuration\<close>; on success the positions are assigned by a
  shuffle, a parameter here.
\<close>

definition assemble ::
  "(nat \<Rightarrow> 'fp pool_question list) \<Rightarrow> ('fp pool_question list \<Rightarrow> 'fp pool_question list)
   \<Rightarrow> assembly_error + 'fp pool_question list" where
  "assemble byTopic shuffle =
     (case assemble_topics byTopic [] ut_configuration of
        Inl e \<Rightarrow> Inl e
      | Inr qs \<Rightarrow> Inr (shuffle qs))"

subsection \<open>Vocabulary for the assembly property\<close>

definition quota_of :: "ut_config list \<Rightarrow> nat \<Rightarrow> nat" where
  "quota_of rows t = sum_list (map questions_per_exam (filter (\<lambda>r. cfg_ut_number r = t) rows))"

text \<open>
  The constraint of the column \<open>exam_questions.question_order\<close>:
  \<open>CHECK (question_order >= 1 AND question_order <= 45)\<close>.
\<close>

definition question_order_check :: "nat \<Rightarrow> bool" where
  "question_order_check question_order = (question_order \<ge> 1 \<and> question_order \<le> 45)"

definition assembled :: "assembly_error + 'a \<Rightarrow> bool" where
  "assembled x = (case x of Inl e \<Rightarrow> False | Inr v \<Rightarrow> True)"

text \<open>A pool with ten questions in every unit, all of different content.\<close>

definition pool_ten :: "nat \<Rightarrow> nat pool_question list" where
  "pool_ten t =
     map (\<lambda>i. \<lparr>pq_question_id = 100 * t + i, pq_ut_number = t, pq_fingerprint = 100 * t + i\<rparr>)
       [0..<10]"

section \<open>The explanation cache of the viewer\<close>



























subsection \<open>Vocabulary for the properties of the cache\<close>





section \<open>The exam session of \<open>ExamSystem\<close>\<close>

text \<open>
  The state of the exam front end, with the fields that the timer, the answers and the
  end of the exam read and write. \<open>userAnswers\<close> is an object keyed by question id.
  \<open>examTimer\<close> holds the handle of the interval or \<open>null\<close>; \<open>intervals\<close> are the handles
  whose callback still fires; the handles that \<open>setInterval\<close> returns are positive, hence
  truthy. \<open>visible\<close> is the section that the \<open>show...\<close> functions display.
\<close>

datatype seccion = AuthSection | DashboardSection | ExamSection | ResultsSection

text \<open>
  How \<open>submitExamAnswers\<close> and the \<open>displayResults\<close> that follows it end inside the
  \<open>try\<close> of \<open>finishExam\<close>: the server answers with results that \<open>displayResults\<close>
  shows (\<open>SubmitOk\<close>); the server answers with results on which \<open>displayResults\<close> throws,
  after \<open>examResults\<close> has been set (\<open>SubmitUnshown\<close>); or the request fails or is
  refused (\<open>SubmitError\<close>). The \<open>catch\<close> only shows an alert.
\<close>

datatype 'r submit_response = SubmitOk 'r | SubmitUnshown 'r | SubmitError

record 'r exam_system =
  currentExam :: "exam option"
  userAnswers :: "(string \<times> string) list"
  examTimer :: "nat option"
  intervals :: "nat list"
  nextInterval :: nat
  timeRemaining :: int
  examResults :: "'r option"
  visible :: seccion

definition js_keys :: "('k \<times> 'v) list \<Rightarrow> 'k list" where
  "js_keys m = remdups (map fst m)"

text \<open>\<open>this.userAnswers[questionId] = answer\<close>, with no other statement that matters.\<close>

definition saveAnswer :: "'r exam_system \<Rightarrow> string \<Rightarrow> string \<Rightarrow> 'r exam_system" where
  "saveAnswer s questionId answer = s\<lparr>userAnswers := js_set (userAnswers s) questionId answer\<rparr>"

definition startTimer :: "'r exam_system \<Rightarrow> 'r exam_system" where
  "startTimer s =
     s\<lparr>examTimer := Some (nextInterval s),
       intervals := intervals s @ [nextInterval s],
       nextInterval := nextInterval s + 1\<rparr>"

definition clearInterval :: "nat option \<Rightarrow> 'r exam_system \<Rightarrow> 'r exam_system" where
  "clearInterval handle s =
     (case handle of None \<Rightarrow> s | Some h \<Rightarrow> s\<lparr>intervals := removeAll h (intervals s)\<rparr>)"

definition pauseExam :: "'r exam_system \<Rightarrow> 'r exam_system" where
  "pauseExam s =
     (case examTimer s of
        Some h \<Rightarrow> (clearInterval (Some h) s)\<lparr>examTimer := None\<rparr>
      | None \<Rightarrow> startTimer s)"

text \<open>
  \<open>startNewExam\<close>, given the answer of the server: the generated exam with its question
  details, or a failure, which only shows an alert.
\<close>

definition startNewExam :: "'r exam_system \<Rightarrow> exam option \<Rightarrow> 'r exam_system" where
  "startNewExam s response =
     (case response of
        None \<Rightarrow> s
      | Some ex \<Rightarrow>
          startTimer (s\<lparr>currentExam := Some ex, userAnswers := [], timeRemaining := 90 * 60,
                         visible := ExamSection\<rparr>))"

text \<open>
  \<open>finishExam\<close>, given the user's answer to the confirmation dialog and the answer of the
  server to the submission. With no exam loaded, \<open>this.currentExam.questions\<close> throws
  after the timer has been cleared.
\<close>

definition finishExam ::
  "'r exam_system \<Rightarrow> bool \<Rightarrow> 'r submit_response \<Rightarrow> error + 'r exam_system" where
  "finishExam s confirmFinish response =
     (let s1 = clearInterval (examTimer s) s in
      case currentExam s1 of
        None \<Rightarrow> Inl TypeError
      | Some ex \<Rightarrow>
          let answeredCount = length (js_keys (userAnswers s1));
              totalQuestions = length (questions ex)
          in if answeredCount < totalQuestions \<and> \<not> confirmFinish then Inr (startTimer s1)
             else (case response of
                     SubmitOk r \<Rightarrow> Inr (s1\<lparr>examResults := Some r, visible := ResultsSection\<rparr>)
                   | SubmitUnshown r \<Rightarrow> Inr (s1\<lparr>examResults := Some r\<rparr>)
                   | SubmitError \<Rightarrow> Inr s1))"

definition timeUp ::
  "'r exam_system \<Rightarrow> bool \<Rightarrow> 'r submit_response \<Rightarrow> error + 'r exam_system" where
  "timeUp s confirmFinish response =
     finishExam (clearInterval (examTimer s) s) confirmFinish response"

text \<open>The callback of the interval, once a second while the interval is active.\<close>

definition tick ::
  "'r exam_system \<Rightarrow> bool \<Rightarrow> 'r submit_response \<Rightarrow> error + 'r exam_system" where
  "tick s confirmFinish response =
     (let s1 = s\<lparr>timeRemaining := timeRemaining s - 1\<rparr> in
      if timeRemaining s1 \<le> 0 then timeUp s1 confirmFinish response else Inr s1)"

definition handleLogout :: "'r exam_system \<Rightarrow> 'r exam_system" where
  "handleLogout s = s\<lparr>visible := AuthSection\<rparr>"

definition showDashboard :: "'r exam_system \<Rightarrow> 'r exam_system" where
  "showDashboard s = s\<lparr>visible := DashboardSection\<rparr>"

text \<open>
  \<open>showPERStats\<close>, when the server answers: \<open>displayPERStats\<close> writes the statistics
  into the summary and \<open>showResults\<close> shows the results section.
\<close>

definition showPERStats :: "'r exam_system \<Rightarrow> 'r exam_system" where
  "showPERStats s = s\<lparr>visible := ResultsSection\<rparr>"

text \<open>
  One step of the front end: a handler runs. A handler that throws leaves the state it
  had reached, which for \<open>finishExam\<close> and the callback is the state with the timer
  cleared. The navigation between questions changes none of the fields of the state.
\<close>

inductive paso :: "'r exam_system \<Rightarrow> 'r exam_system \<Rightarrow> bool" where
  paso_start: "paso s (startNewExam s response)"
| paso_answer: "paso s (saveAnswer s questionId answer)"
| paso_pause: "paso s (pauseExam s)"
| paso_finish: "finishExam s c r = Inr s' \<Longrightarrow> paso s s'"
| paso_finish_throws: "finishExam s c r = Inl e \<Longrightarrow> paso s (clearInterval (examTimer s) s)"
| paso_tick: "h \<in> set (intervals s) \<Longrightarrow> tick s c r = Inr s' \<Longrightarrow> paso s s'"
| paso_tick_throws:
    "h \<in> set (intervals s) \<Longrightarrow> tick s c r = Inl e \<Longrightarrow>
     paso s (clearInterval (examTimer s) (s\<lparr>timeRemaining := timeRemaining s - 1\<rparr>))"
| paso_logout: "paso s (handleLogout s)"
| paso_dashboard: "paso s (showDashboard s)"
| paso_stats: "paso s (showPERStats s)"
| paso_navigate: "paso s s"

subsection \<open>Vocabulary for the properties of the session\<close>

text \<open>
  The exam is in progress while the exam section is shown and \<open>examTimer\<close> holds a
  handle; it is paused while the exam section is shown and \<open>examTimer\<close> is \<open>null\<close>, which
  is how \<open>pauseExam\<close> tells the two apart; it is finished when the results are shown.
\<close>

definition is_in_progress :: "'r exam_system \<Rightarrow> bool" where
  "is_in_progress s = (visible s = ExamSection \<and> examTimer s \<noteq> None)"

definition is_paused :: "'r exam_system \<Rightarrow> bool" where
  "is_paused s = (visible s = ExamSection \<and> examTimer s = None)"

definition is_finished :: "'r exam_system \<Rightarrow> bool" where
  "is_finished s = (visible s = ResultsSection)"

text \<open>
  The statuses the specification names, and the constraint of the column
  \<open>user_exams.status\<close>: \<open>CHECK (status IN ('in_progress', 'completed', 'abandoned'))\<close>.
  The column is not declared \<open>NOT NULL\<close>, and a \<open>CHECK\<close> whose condition is unknown is
  satisfied, so the column admits \<open>NULL\<close>, here \<open>None\<close>.
\<close>

datatype session_status = not_started | in_progress | paused | completed | timed_out | abandoned

fun status_name :: "session_status \<Rightarrow> string" where
  "status_name not_started = ''not_started''"
| "status_name in_progress = ''in_progress''"
| "status_name paused = ''paused''"
| "status_name completed = ''completed''"
| "status_name timed_out = ''timed_out''"
| "status_name abandoned = ''abandoned''"

definition user_exams_status_check :: "string option \<Rightarrow> bool" where
  "user_exams_status_check status =
     (case status of
        None \<Rightarrow> True
      | Some name \<Rightarrow> name \<in> set [''in_progress'', ''completed'', ''abandoned''])"

text \<open>
  The letters \<open>displayCurrentQuestion\<close> offers for a question, and the constraint of the
  column \<open>user_answers.selected_answer\<close>: \<open>CHECK (selected_answer IN ('a', 'b', 'c', 'd'))\<close>.
\<close>

definition option_letters :: "question_detail \<Rightarrow> string list" where
  "option_letters q =
     map fst (filter (\<lambda>(letter, optionText). truthy optionText)
        [(''a'', opcion_a q), (''b'', opcion_b q), (''c'', opcion_c q), (''d'', opcion_d q)])"

definition selected_answer_check :: "string \<Rightarrow> bool" where
  "selected_answer_check letter = (letter \<in> set [''a'', ''b'', ''c'', ''d''])"

text \<open>\<open>n\<close> callbacks of the interval in a row, none of which reaches zero.\<close>

fun ticks :: "nat \<Rightarrow> 'r exam_system \<Rightarrow> bool \<Rightarrow> 'r submit_response \<Rightarrow> error + 'r exam_system" where
  "ticks 0 s c r = Inr s"
| "ticks (Suc n) s c r = (case tick s c r of Inl e \<Rightarrow> Inl e | Inr s' \<Rightarrow> ticks n s' c r)"

definition visible_after :: "error + 'r exam_system \<Rightarrow> seccion option" where
  "visible_after x = (case x of Inl e \<Rightarrow> None | Inr s \<Rightarrow> Some (visible s))"

text \<open>The state at construction, and the exam of two questions started and paused.\<close>

definition initial_system :: "nat exam_system" where
  "initial_system =
     \<lparr>currentExam = None, userAnswers = [], examTimer = None, intervals = [], nextInterval = 1,
      timeRemaining = 90 * 60, examResults = None, visible = DashboardSection\<rparr>"

definition running_system :: "nat exam_system" where
  "running_system = startNewExam initial_system (Some exam_two)"

definition paused_system :: "nat exam_system" where
  "paused_system = pauseExam running_system"

section \<open>Properties of the scoring\<close>

lemma init_utResults_apply:
  "init_utResults i = (if 1 \<le> i \<and> i \<le> 11 then Some zero_ut else None)"
proof -
  have "[1..<12] = [1,2,3,4,5,6,7,8,9,10,11::nat]" by code_simp
  then show ?thesis unfolding init_utResults_def by (auto, arith)
qed

lemma count_where_Nil [simp]: "count_where P [] = 0"
  by (simp add: count_where_def)

lemma count_where_Cons [simp]:
  "count_where P (x # xs) = (if P x then Suc (count_where P xs) else count_where P xs)"
  by (simp add: count_where_def)

lemma tally_question_ok:
  assumes "t_utResults t (ut_number q) = Some r0"
  shows "tally_question ua t q =
     Inr \<lparr>t_correctAnswers = t_correctAnswers t + (if answered_right ua q then 1 else 0),
          t_totalAnswered = t_totalAnswered t + (if answered ua q then 1 else 0),
          t_utResults = (t_utResults t)(ut_number q \<mapsto> add_ut r0 (ut_tally ua [q] (ut_number q)))\<rparr>"
  using assms
  by (cases t; cases r0)
     (simp add: tally_question_def Let_def answered_right_def answered_wrong_def answered_def
      add_ut_def ut_tally_def)

lemma tally_all_ok:
  assumes "\<forall>q \<in> set qs. ut_number q \<in> dom (t_utResults t)"
  shows "tally_all ua t qs =
     Inr \<lparr>t_correctAnswers = t_correctAnswers t + count_where (answered_right ua) qs,
          t_totalAnswered = t_totalAnswered t + count_where (answered ua) qs,
          t_utResults = (\<lambda>n. map_option (\<lambda>r. add_ut r (ut_tally ua qs n)) (t_utResults t n))\<rparr>"
  using assms
proof (induction qs arbitrary: t)
  case Nil
  have "add_ut r (ut_tally ua [] n) = r" for r n
    by (cases r) (simp add: add_ut_def ut_tally_def)
  then have "(\<lambda>n. map_option (\<lambda>r. add_ut r (ut_tally ua [] n)) (t_utResults t n)) = t_utResults t"
    by (simp add: option.map_ident)
  then show ?case by (cases t) simp
next
  case (Cons q qs)
  from Cons.prems obtain r0 where r0: "t_utResults t (ut_number q) = Some r0" by auto
  let ?t' = "\<lparr>t_correctAnswers = t_correctAnswers t + (if answered_right ua q then 1 else 0),
          t_totalAnswered = t_totalAnswered t + (if answered ua q then 1 else 0),
          t_utResults = (t_utResults t)(ut_number q \<mapsto> add_ut r0 (ut_tally ua [q] (ut_number q)))\<rparr>"
  have step: "tally_question ua t q = Inr ?t'" by (rule tally_question_ok [OF r0])
  have dom: "\<forall>q' \<in> set qs. ut_number q' \<in> dom (t_utResults ?t')"
    using Cons.prems by auto
  have maps: "(\<lambda>n. map_option (\<lambda>r. add_ut r (ut_tally ua qs n)) (t_utResults ?t' n))
      = (\<lambda>n. map_option (\<lambda>r. add_ut r (ut_tally ua (q # qs) n)) (t_utResults t n))"
    by (rule ext) (auto simp: r0 add_ut_def ut_tally_def)
  show ?case
    unfolding tally_all.simps step sum.case Cons.IH [OF dom] maps
    by simp
qed

lemma add_zero_ut: "add_ut zero_ut r = r"
  by (cases r) (simp add: add_ut_def zero_ut_def)

lemma tally_all_init:
  assumes "\<forall>q \<in> set qs. 1 \<le> ut_number q \<and> ut_number q \<le> 11"
  shows "tally_all ua init_tally qs =
     Inr \<lparr>t_correctAnswers = count_where (answered_right ua) qs,
          t_totalAnswered = count_where (answered ua) qs,
          t_utResults = final_utResults ua qs\<rparr>"
proof -
  have d: "\<forall>q \<in> set qs. ut_number q \<in> dom (t_utResults init_tally)"
    using assms by (auto simp: init_tally_def init_utResults_apply)
  have m: "(\<lambda>n. map_option (\<lambda>r. add_ut r (ut_tally ua qs n)) (t_utResults init_tally n))
      = final_utResults ua qs"
    by (rule ext) (simp add: init_tally_def init_utResults_apply final_utResults_def add_zero_ut)
  show ?thesis
    unfolding tally_all_ok [OF d] m by (simp add: init_tally_def)
qed

lemma check_critical_final:
  "check_critical (final_utResults ua qs) criticalUTs =
     Inr (errors (ut_tally ua qs 5) \<le> 2 \<and> errors (ut_tally ua qs 6) \<le> 5
          \<and> errors (ut_tally ua qs 11) \<le> 2)"
  by (auto simp: criticalUTs_def final_utResults_def)

lemma calculated_results_eq:
  assumes "\<forall>q \<in> set (questionDetails ex). 1 \<le> ut_number q \<and> ut_number q \<le> 11"
  shows "calculated_results ex ua =
     Inr \<lparr>correctAnswers = count_where (answered_right ua) (questionDetails ex),
          totalAnswered = count_where (answered ua) (questionDetails ex),
          totalQuestions = length (questions ex),
          percentage = percentage_of (count_where (answered_right ua) (questionDetails ex))
                                     (count_where (answered ua) (questionDetails ex)),
          passed = (\<not> percentage_of (count_where (answered_right ua) (questionDetails ex))
                                     (count_where (answered ua) (questionDetails ex)) < 65
                    \<and> errors (ut_tally ua (questionDetails ex) 5) \<le> 2
                    \<and> errors (ut_tally ua (questionDetails ex) 6) \<le> 5
                    \<and> errors (ut_tally ua (questionDetails ex) 11) \<le> 2),
          utResults = final_utResults ua (questionDetails ex)\<rparr>"
  unfolding calculated_results_def tally_all_init [OF assms]
  by (simp add: Let_def score_tally_def make_results_def checkIfPassed_def check_critical_final)

lemma critical_rows_eq: "critical_rows = [(5, Some 2), (6, Some 5), (11, Some 2)]"
  by (simp add: critical_rows_def ut_configuration_def ut_row_def)

lemma exam_two_in_range:
  "\<forall>q \<in> set (questionDetails exam_two). 1 \<le> ut_number q \<and> ut_number q \<le> 11"
  by (simp add: exam_two_def detail_def)

lemma exam_six_in_range:
  "\<forall>q \<in> set (questionDetails exam_six). 1 \<le> ut_number q \<and> ut_number q \<le> 11"
  by (simp add: exam_six_def detail_def)

text \<open>
  \<open>calculateAndShowResults\<close> never returns: when a question lies outside the units 1 to
  11 the tally throws, and otherwise \<open>displayResults\<close> throws on the object it is handed,
  which has no \<open>ut_results\<close>. Nothing in the front end calls the function; the results of
  a finished exam come from the server.
\<close>

lemma error_is_TypeError: "(e :: error) = TypeError"
  by (cases e) simp

lemma displayResults_as_displayed: "displayResults (as_displayed r) = Inl TypeError"
  by (simp add: displayResults_def as_displayed_def generateUTResultsHTML_def)

lemma calculateAndShowResults_throws: "calculateAndShowResults ex ua = Inl TypeError"
  unfolding calculateAndShowResults_def
  by (cases "calculated_results ex ua") (simp_all add: displayResults_as_displayed error_is_TypeError)

lemma checkIfPassed_defined:
  assumes "utr 5 = Some u5" and "utr 6 = Some u6" and "utr 11 = Some u11"
  shows "checkIfPassed pct utr =
           Inr (65 \<le> pct \<and> errors u5 \<le> 2 \<and> errors u6 \<le> 5 \<and> errors u11 \<le> 2)"
  using assms by (auto simp: checkIfPassed_def criticalUTs_def)

lemma critical_ceilings:
  "(\<forall>c \<in> set ut_configuration. is_critical c \<longrightarrow>
      (\<exists>m. max_errors_allowed c = Some m \<and> f (cfg_ut_number c) \<le> m))
   \<longleftrightarrow> f 5 \<le> 2 \<and> f 6 \<le> 5 \<and> f 11 \<le> (2::nat)"
  by (simp add: ut_configuration_def ut_row_def)

text \<open>
  Claim C1 as written fails. The exam has one question in unit 1, answered correctly,
  and five questions in unit 5, none answered. The pass/fail value that
  \<open>calculateAndShowResults\<close> computes is true, while the overall percentage over all the
  questions is 50/3, below 65, and unit 5, with ceiling 2, has five questions not
  answered correctly.
\<close>

theorem pass_rule_counterexample:
  "result_passed (calculated_results exam_six answers_one) = Some True \<and>
   spec_overall_percentage answers_one (questionDetails exam_six) = 50 / 3 \<and>
   spec_topic_errors answers_one (questionDetails exam_six) 5 = 5 \<and>
   map_of critical_rows 5 = Some (Some 2)"
  unfolding calculated_results_eq [OF exam_six_in_range] critical_rows_eq
  by (simp add: result_passed_def spec_overall_percentage_def spec_topic_errors_def exam_six_def
      detail_def answers_one_def answered_right_def answered_wrong_def answered_def truthy_def
      percentage_of_def ut_tally_def)

text \<open>
  Claim C1, amended. For an exam whose questions all lie in the units 1 to 11, the
  pass/fail value that \<open>calculateAndShowResults\<close> computes is true exactly when the
  number of correct answers divided by the number of answered questions, times 100 (0
  when nothing is answered), is at least 65 and, for every row of \<open>ut_configuration\<close>
  flagged critical, the number of questions of that unit answered wrongly does not exceed
  the ceiling of the row; unanswered questions count neither against the percentage nor
  as errors. \<open>checkIfPassed\<close>, given a percentage and tallies that have the units 5, 6
  and 11, returns true exactly when the percentage is at least 65 and the errors of
  these units are at most 2, 5 and 2, which are the critical rows of the table.
\<close>

theorem checkIfPassed_rule:
  assumes "\<forall>q \<in> set (questionDetails ex). 1 \<le> ut_number q \<and> ut_number q \<le> 11"
  shows "(\<exists>r. calculated_results ex ua = Inr r \<and>
           (passed r \<longleftrightarrow>
              65 \<le> percentage_of (count_where (answered_right ua) (questionDetails ex))
                                 (count_where (answered ua) (questionDetails ex)) \<and>
              (\<forall>c \<in> set ut_configuration. is_critical c \<longrightarrow>
                 (\<exists>m. max_errors_allowed c = Some m \<and>
                      count_where (\<lambda>q. ut_number q = cfg_ut_number c \<and> answered_wrong ua q)
                        (questionDetails ex) \<le> m))))
         \<and> (utr 5 = Some u5 \<and> utr 6 = Some u6 \<and> utr 11 = Some u11 \<longrightarrow>
              checkIfPassed pct utr =
                Inr (65 \<le> pct \<and> errors u5 \<le> 2 \<and> errors u6 \<le> 5 \<and> errors u11 \<le> 2))
         \<and> critical_rows = [(5, Some 2), (6, Some 5), (11, Some 2)]"
proof -
  have a: "\<exists>r. calculated_results ex ua = Inr r \<and>
           (passed r \<longleftrightarrow>
              65 \<le> percentage_of (count_where (answered_right ua) (questionDetails ex))
                                 (count_where (answered ua) (questionDetails ex)) \<and>
              (\<forall>c \<in> set ut_configuration. is_critical c \<longrightarrow>
                 (\<exists>m. max_errors_allowed c = Some m \<and>
                      count_where (\<lambda>q. ut_number q = cfg_ut_number c \<and> answered_wrong ua q)
                        (questionDetails ex) \<le> m)))"
    unfolding calculated_results_eq [OF assms]
      critical_ceilings [of "\<lambda>n. count_where (\<lambda>q. ut_number q = n \<and> answered_wrong ua q) (questionDetails ex)"]
    by (simp add: ut_tally_def not_less)
  show ?thesis using a checkIfPassed_defined [of utr u5 u6 u11 pct] critical_rows_eq by blast
qed

theorem checkIfPassed_rule_witness:
  "list_all (\<lambda>q. 1 \<le> ut_number q \<and> ut_number q \<le> 11) (questionDetails exam_six) \<and>
   (\<exists>r. calculated_results exam_six answers_one = Inr r \<and> passed r) \<and>
   checkIfPassed 70 (final_utResults answers_one (questionDetails exam_six)) = Inr True \<and>
   checkIfPassed 64 (final_utResults answers_one (questionDetails exam_six)) = Inr False"
proof -
  let ?utr = "final_utResults answers_one (questionDetails exam_six)"
  have u: "?utr 5 = Some (ut_tally answers_one (questionDetails exam_six) 5)"
    "?utr 6 = Some (ut_tally answers_one (questionDetails exam_six) 6)"
    "?utr 11 = Some (ut_tally answers_one (questionDetails exam_six) 11)"
    by (simp_all add: final_utResults_def)
  have e: "errors (ut_tally answers_one (questionDetails exam_six) 5) = 0"
    "errors (ut_tally answers_one (questionDetails exam_six) 6) = 0"
    "errors (ut_tally answers_one (questionDetails exam_six) 11) = 0"
    by (simp_all add: ut_tally_def exam_six_def detail_def answers_one_def answered_wrong_def
        answered_def truthy_def)
  have p: "percentage_of (count_where (answered_right answers_one) (questionDetails exam_six))
             (count_where (answered answers_one) (questionDetails exam_six)) = 100"
    by (simp add: percentage_of_def exam_six_def detail_def answers_one_def answered_right_def
        answered_def truthy_def)
  have w: "\<forall>c \<in> set ut_configuration. is_critical c \<longrightarrow>
             (\<exists>m. max_errors_allowed c = Some m \<and>
                count_where (\<lambda>q. ut_number q = cfg_ut_number c \<and> answered_wrong answers_one q)
                  (questionDetails exam_six) \<le> m)"
    unfolding critical_ceilings [of "\<lambda>n. count_where (\<lambda>q. ut_number q = n \<and> answered_wrong answers_one q) (questionDetails exam_six)"]
    using e by (simp add: ut_tally_def)
  note t70 = checkIfPassed_rule [OF exam_six_in_range, of answers_one ?utr _ _ _ 70]
  note t64 = checkIfPassed_rule [OF exam_six_in_range, of answers_one ?utr _ _ _ 64]
  from t70 p w have a: "\<exists>r. calculated_results exam_six answers_one = Inr r \<and> passed r"
    by auto
  from t70 u e have b: "checkIfPassed 70 ?utr = Inr True" by simp
  from t64 u e have c: "checkIfPassed 64 ?utr = Inr False" by simp
  show ?thesis using exam_six_in_range a b c unfolding list_all_iff by blast
qed

text \<open>
  Claim C2 as written fails: with one of two questions answered, and answered correctly,
  \<open>calculateAndShowResults\<close> computes 100 percent and no error in the unit, where the
  formula over all the questions gives 50 percent and one error.
\<close>

theorem percentage_all_questions_counterexample:
  "result_percentage (calculated_results exam_two answers_one) = Some 100 \<and>
   spec_overall_percentage answers_one (questionDetails exam_two) = 50 \<and>
   result_errors (calculated_results exam_two answers_one) 1 = Some 0 \<and>
   spec_topic_errors answers_one (questionDetails exam_two) 1 = 1"
  unfolding calculated_results_eq [OF exam_two_in_range]
  by (simp add: result_percentage_def
      result_errors_def spec_overall_percentage_def spec_topic_errors_def exam_two_def
      detail_def answers_one_def answered_right_def answered_wrong_def answered_def truthy_def
      percentage_of_def final_utResults_def ut_tally_def)

text \<open>
  Claim C2, amended. For an exam whose questions all lie in the units 1 to 11, the
  overall percentage that \<open>calculateAndShowResults\<close> computes and hands to
  \<open>displayResults\<close> is the number of correct answers divided by the number of answered
  questions, times 100, and 0 when nothing was answered. An unanswered question counts
  in its unit's total, and neither as correct nor as an error. The call of
  \<open>displayResults\<close> that ends the function throws, so none of these values is shown.
\<close>

theorem percentage_of_answered:
  assumes "\<forall>q \<in> set (questionDetails ex). 1 \<le> ut_number q \<and> ut_number q \<le> 11"
  shows "(\<exists>r. calculated_results ex ua = Inr r \<and>
           correctAnswers r = count_where (answered_right ua) (questionDetails ex) \<and>
           totalAnswered r = count_where (answered ua) (questionDetails ex) \<and>
           percentage r = (if totalAnswered r > 0
                           then of_nat (correctAnswers r) / of_nat (totalAnswered r) * 100 else 0) \<and>
           (\<forall>n. 1 \<le> n \<and> n \<le> 11 \<longrightarrow>
              utResults r n =
                Some \<lparr>correct = count_where (\<lambda>q. ut_number q = n \<and> answered_right ua q) (questionDetails ex),
                      total = count_where (\<lambda>q. ut_number q = n) (questionDetails ex),
                      errors = count_where (\<lambda>q. ut_number q = n \<and> answered_wrong ua q) (questionDetails ex)\<rparr>))
         \<and> calculateAndShowResults ex ua = Inl TypeError"
  unfolding calculated_results_eq [OF assms] calculateAndShowResults_throws
  by (simp add: percentage_of_def final_utResults_def ut_tally_def)

theorem percentage_of_answered_witness:
  "list_all (\<lambda>q. 1 \<le> ut_number q \<and> ut_number q \<le> 11) (questionDetails exam_two) \<and>
   (\<exists>r. calculated_results exam_two answers_one = Inr r \<and> percentage r = 100 \<and>
        totalAnswered r = 1 \<and> map_option errors (utResults r 1) = Some 0 \<and>
        map_option total (utResults r 1) = Some 2) \<and>
   calculateAndShowResults exam_two answers_one = Inl TypeError"
proof -
  note t = percentage_of_answered [OF exam_two_in_range, of answers_one]
  from t
  obtain r where r: "calculated_results exam_two answers_one = Inr r"
    and c: "correctAnswers r = count_where (answered_right answers_one) (questionDetails exam_two)"
    and a: "totalAnswered r = count_where (answered answers_one) (questionDetails exam_two)"
    and p: "percentage r = (if totalAnswered r > 0
                           then of_nat (correctAnswers r) / of_nat (totalAnswered r) * 100 else 0)"
    and u: "\<forall>n. 1 \<le> n \<and> n \<le> 11 \<longrightarrow>
              utResults r n =
                Some \<lparr>correct = count_where (\<lambda>q. ut_number q = n \<and> answered_right answers_one q) (questionDetails exam_two),
                      total = count_where (\<lambda>q. ut_number q = n) (questionDetails exam_two),
                      errors = count_where (\<lambda>q. ut_number q = n \<and> answered_wrong answers_one q) (questionDetails exam_two)\<rparr>"
    by blast
  from t have th: "calculateAndShowResults exam_two answers_one = Inl TypeError" by blast
  have c1: "correctAnswers r = 1" and a1: "totalAnswered r = 1"
    unfolding c a
    by (simp_all add: exam_two_def detail_def answers_one_def answered_right_def answered_def truthy_def)
  have p1: "percentage r = 100" unfolding p c1 a1 by simp
  have u1: "map_option errors (utResults r 1) = Some 0" "map_option total (utResults r 1) = Some 2"
    using u [rule_format, of 1]
    by (simp_all add: exam_two_def detail_def answers_one_def answered_wrong_def answered_def truthy_def)
  show ?thesis using exam_two_in_range r p1 a1 u1 th unfolding list_all_iff by blast
qed

section \<open>Properties of the deduplication\<close>

lemma js_set_absent: "\<not> js_has m k \<Longrightarrow> js_set m k v = m @ [(k, v)]"
  by (induction m) (auto simp: js_has_def)

lemma hash_in_take_iff:
  assumes "n \<le> length qs"
  shows "h \<in> set (map hash_pregunta (take n qs)) \<longleftrightarrow> (\<exists>j<n. hash_pregunta (qs ! j) = h)"
proof
  assume "h \<in> set (map hash_pregunta (take n qs))"
  then obtain j where "j < length (take n qs)" "hash_pregunta (take n qs ! j) = h"
    by (auto simp: in_set_conv_nth)
  then show "\<exists>j<n. hash_pregunta (qs ! j) = h" using assms by auto
next
  assume "\<exists>j<n. hash_pregunta (qs ! j) = h"
  then obtain j where j: "j < n" "hash_pregunta (qs ! j) = h" by blast
  then have "take n qs ! j = qs ! j" "j < length (take n qs)" using assms by auto
  then have "qs ! j \<in> set (take n qs)" by (metis nth_mem)
  then show "h \<in> set (map hash_pregunta (take n qs))" using j by auto
qed

lemma earlier_has_first:
  assumes "j < n" "n \<le> length qs" "hash_pregunta (qs ! j) = Some h" "h \<noteq> []"
  shows "\<exists>i<n. first_occurrence qs i \<and> hash_pregunta (qs ! i) = Some h"
  using assms(1,3)
proof (induction j rule: less_induct)
  case (less j)
  show ?case
  proof (cases "first_occurrence qs j")
    case True
    then show ?thesis using less.prems by blast
  next
    case False
    have "truthy (hash_pregunta (qs ! j))"
      using less.prems(2) assms(4) by (simp add: truthy_def)
    with False have "hash_pregunta (qs ! j) \<in> set (map hash_pregunta (take j qs))"
      by (simp add: first_occurrence_def)
    moreover have "j \<le> length qs" using less.prems(1) assms(2) by simp
    ultimately obtain k where k: "k < j" "hash_pregunta (qs ! k) = hash_pregunta (qs ! j)"
      using hash_in_take_iff [of j qs "hash_pregunta (qs ! j)"] by blast
    have "k < n" using k(1) less.prems(1) by simp
    moreover have "hash_pregunta (qs ! k) = Some h" using k(2) less.prems(2) by simp
    ultimately show ?thesis using less.IH [OF k(1)] by blast
  qed
qed

lemma js_has_entries:
  assumes "n \<le> length qs" "h \<noteq> []"
  shows "js_has (map (dedup_entry allq qs) (filter (first_occurrence qs) [0..<n])) h
         \<longleftrightarrow> Some h \<in> set (map hash_pregunta (take n qs))"
proof
  assume "js_has (map (dedup_entry allq qs) (filter (first_occurrence qs) [0..<n])) h"
  then obtain i where i: "i < n" "first_occurrence qs i" "the (hash_pregunta (qs ! i)) = h"
    by (auto simp: js_has_def dedup_entry_def)
  then have "hash_pregunta (qs ! i) = Some h"
    by (auto simp: first_occurrence_def truthy_def split: option.splits)
  then show "Some h \<in> set (map hash_pregunta (take n qs))"
    using i(1) unfolding hash_in_take_iff [OF assms(1)] by blast
next
  assume "Some h \<in> set (map hash_pregunta (take n qs))"
  then obtain j where "j < n" "hash_pregunta (qs ! j) = Some h"
    unfolding hash_in_take_iff [OF assms(1)] by blast
  from earlier_has_first [OF this(1) assms(1) this(2) assms(2)]
  obtain i where "i < n" "first_occurrence qs i" "hash_pregunta (qs ! i) = Some h" by blast
  then have "(h, with_occurrences allq (qs ! i))
     \<in> set (map (dedup_entry allq qs) (filter (first_occurrence qs) [0..<n]))"
    by (force simp: dedup_entry_def)
  then have "fst (h, with_occurrences allq (qs ! i))
     \<in> fst ` set (map (dedup_entry allq qs) (filter (first_occurrence qs) [0..<n]))"
    by (rule imageI)
  then show "js_has (map (dedup_entry allq qs) (filter (first_occurrence qs) [0..<n])) h"
    by (simp only: js_has_def set_map fst_conv)
qed

lemma dedup_loop:
  assumes "n \<le> length qs"
  shows "fold (\<lambda>q m. dedup_visit allq m q) (take n qs) []
         = map (dedup_entry allq qs) (filter (first_occurrence qs) [0..<n])"
  using assms
proof (induction n)
  case 0
  then show ?case by simp
next
  case (Suc n)
  then have n: "n < length qs" "n \<le> length qs" by simp_all
  let ?m = "map (dedup_entry allq qs) (filter (first_occurrence qs) [0..<n])"
  have tk: "take (Suc n) qs = take n qs @ [qs ! n]" using n(1) by (rule take_Suc_conv_app_nth)
  have lhs: "fold (\<lambda>q m. dedup_visit allq m q) (take (Suc n) qs) []
      = dedup_visit allq ?m (qs ! n)"
    unfolding tk using Suc.IH [OF n(2)] by simp
  have visit: "dedup_visit allq ?m (qs ! n)
      = ?m @ (if first_occurrence qs n then [dedup_entry allq qs n] else [])"
  proof (cases "hash_pregunta (qs ! n)")
    case None
    then show ?thesis by (simp add: dedup_visit_def first_occurrence_def truthy_def)
  next
    case (Some h)
    show ?thesis
    proof (cases "h = []")
      case True
      then show ?thesis using Some by (simp add: dedup_visit_def first_occurrence_def truthy_def)
    next
      case False
      have has: "js_has ?m h \<longleftrightarrow> Some h \<in> set (map hash_pregunta (take n qs))"
        by (rule js_has_entries [OF n(2) False])
      show ?thesis
      proof (cases "js_has ?m h")
        case True
        then show ?thesis using Some False has
          by (simp add: dedup_visit_def first_occurrence_def truthy_def)
      next
        case nh: False
        have fo: "first_occurrence qs n" using Some False has nh
          by (simp add: first_occurrence_def truthy_def)
        have "dedup_visit allq ?m (qs ! n) = js_set ?m h (with_occurrences allq (qs ! n))"
          using Some False nh by (simp add: dedup_visit_def Let_def with_occurrences_def)
        also have "\<dots> = ?m @ [(h, with_occurrences allq (qs ! n))]"
          by (rule js_set_absent [OF nh])
        finally show ?thesis using fo Some by (simp add: dedup_entry_def)
      qed
    qed
  qed
  show ?case unfolding lhs visit by simp
qed

lemma first_occurrence_distinct:
  "distinct (map (\<lambda>i. hash_pregunta (qs ! i)) (filter (first_occurrence qs) [0..<length qs]))"
proof -
  have "inj_on (\<lambda>i. hash_pregunta (qs ! i)) (set (filter (first_occurrence qs) [0..<length qs]))"
  proof (rule inj_onI)
    fix i j
    assume i: "i \<in> set (filter (first_occurrence qs) [0..<length qs])"
      and j: "j \<in> set (filter (first_occurrence qs) [0..<length qs])"
      and eq: "hash_pregunta (qs ! i) = hash_pregunta (qs ! j)"
    have no: "\<not> a < b" if a: "a < length qs" and b: "b < length qs" "first_occurrence qs b"
      and e: "hash_pregunta (qs ! a) = hash_pregunta (qs ! b)" for a b
    proof
      assume "a < b"
      then have "hash_pregunta (qs ! b) \<in> set (map hash_pregunta (take b qs))"
        using hash_in_take_iff [of b qs "hash_pregunta (qs ! b)"] b(1) e by auto
      then show False using b(2) by (simp add: first_occurrence_def)
    qed
    from i j have "\<not> i < j" "\<not> j < i" using no [of i j] no [of j i] eq by auto
    then show "i = j" by simp
  qed
  then show ?thesis by (simp add: distinct_map)
qed

text \<open>
  Claim C10. \<open>deduplicateQuestions\<close> returns, in input order, the first occurrence of
  every hash that is present, each with \<open>todas_apariciones\<close> listing all the questions
  of the input with that hash; the hashes of the result are pairwise distinct; a question
  whose hash is missing (absent, or the empty string, which \<open>hash &&\<close> treats alike)
  does not appear in the result.
\<close>

theorem deduplicateQuestions_first_occurrences:
  "deduplicateQuestions qs =
     map (\<lambda>i. with_occurrences qs (qs ! i)) (filter (first_occurrence qs) [0..<length qs])
   \<and> distinct (map hash_pregunta (deduplicateQuestions qs))
   \<and> (\<forall>q \<in> set (deduplicateQuestions qs). truthy (hash_pregunta q))
   \<and> (\<forall>q \<in> set qs. \<not> truthy (hash_pregunta q) \<longrightarrow>
         hash_pregunta q \<notin> set (map hash_pregunta (deduplicateQuestions qs)))"
proof -
  have eq: "deduplicateQuestions qs =
     map (\<lambda>i. with_occurrences qs (qs ! i)) (filter (first_occurrence qs) [0..<length qs])"
    using dedup_loop [of "length qs" qs qs]
    by (simp add: deduplicateQuestions_def js_values_def dedup_entry_def comp_def)
  have hashes: "map hash_pregunta (deduplicateQuestions qs)
      = map (\<lambda>i. hash_pregunta (qs ! i)) (filter (first_occurrence qs) [0..<length qs])"
    unfolding eq by (simp add: comp_def with_occurrences_def)
  have d: "distinct (map hash_pregunta (deduplicateQuestions qs))"
    unfolding hashes by (rule first_occurrence_distinct)
  have t: "\<forall>h \<in> set (map hash_pregunta (deduplicateQuestions qs)). truthy h"
    unfolding hashes by (auto simp: first_occurrence_def)
  from t have t1: "\<forall>q \<in> set (deduplicateQuestions qs). truthy (hash_pregunta q)" by simp
  from t have t2: "\<forall>q \<in> set qs. \<not> truthy (hash_pregunta q) \<longrightarrow>
         hash_pregunta q \<notin> set (map hash_pregunta (deduplicateQuestions qs))" by blast
  show ?thesis using eq d t1 t2 by blast
qed

theorem deduplicateQuestions_first_occurrences_witness:
  "map numero (deduplicateQuestions viewer_list) = [1, 3] \<and>
   map todas_apariciones (deduplicateQuestions viewer_list) =
     [Some [aparicion_of (viewer_question 1 (Some ''aa'') ''01''),
            aparicion_of (viewer_question 7 (Some ''aa'') ''02'')],
      Some [aparicion_of (viewer_question 3 (Some ''bb'') ''01'')]] \<and>
   distinct (map hash_pregunta (deduplicateQuestions viewer_list))"
proof -
  have len: "[0..<length viewer_list] = [0, 1, 2, 3, 4]"
    by (simp add: viewer_list_def upt_rec)
  have idx: "filter (first_occurrence viewer_list) [0..<length viewer_list] = [0, 2]"
    unfolding len
    by (simp add: first_occurrence_def viewer_list_def viewer_question_def truthy_def)
  have eq: "deduplicateQuestions viewer_list =
      [with_occurrences viewer_list (viewer_list ! 0), with_occurrences viewer_list (viewer_list ! 2)]"
    using deduplicateQuestions_first_occurrences [of viewer_list] unfolding idx by simp
  have d: "distinct (map hash_pregunta (deduplicateQuestions viewer_list))"
    using deduplicateQuestions_first_occurrences [of viewer_list] by blast
  show ?thesis
    using d unfolding eq
    by (simp add: with_occurrences_def viewer_list_def viewer_question_def)
qed

section \<open>Properties of the content identity\<close>































lemma contenido_eslora:
  "contenido pregunta_eslora = ''que es la eslora|el calado|la anchura|la longitud de proa a popa''"
  by code_simp

text \<open>The hash of that content as \<open>calculateQuestionHashSync\<close> computes it.\<close>

lemma simple_hash_example:
  "simple_hash ''que es la eslora|el calado|la anchura|la longitud de proa a popa'' = 1050562855"
  by (simp add: simple_hash_def hash_step_def code_def)

lemma to_hex_example: "to_hex 1050562855 = ''3e9e5127''"
  by (simp add: hex_digit_def)

lemma padStart_example: "padStart 16 (CHR ''0'') ''3e9e5127'' = ''000000003e9e5127''"
  by (simp add: padStart_def eval_nat_numeral)

lemma calculateQuestionHashSync_example:
  "calculateQuestionHashSync pregunta_eslora = ''000000003e9e5127''"
proof -
  have h: "\<not> truthy (hash_pregunta pregunta_eslora)"
    by (simp add: pregunta_eslora_def truthy_def)
  have a: "nat \<bar>sint (1050562855 :: 32 word)\<bar> = 1050562855" by simp
  show ?thesis
    unfolding calculateQuestionHashSync_def contenido_eslora simple_hash_example a to_hex_example
      padStart_example
    using h by simp
qed

text \<open>\<open>calculateQuestionHash\<close> returns no hash: it throws for every question.\<close>

lemma calculateQuestionHash_throws: "calculateQuestionHash p = Inl TypeError"
  by (simp add: calculateQuestionHash_def)

section \<open>Properties of the exam assembly\<close>

lemma draw_length: "length (draw k used cs) \<le> k"
  by (induction k used cs rule: draw.induct) auto

lemma draw_subset: "set (draw k used cs) \<subseteq> set cs"
  by (induction k used cs rule: draw.induct) auto

lemma draw_fresh: "pq_fingerprint ` set (draw k used cs) \<inter> set used = {}"
  by (induction k used cs rule: draw.induct) auto

lemma draw_distinct: "distinct (map pq_fingerprint (draw k used cs))"
proof (induction k used cs rule: draw.induct)
  case (3 k used c candidates)
  show ?case
  proof (cases "pq_fingerprint c \<in> set used")
    case True
    then show ?thesis using 3 by simp
  next
    case False
    have "pq_fingerprint ` set (draw k (pq_fingerprint c # used) candidates)
          \<inter> set (pq_fingerprint c # used) = {}"
      by (rule draw_fresh)
    then have "pq_fingerprint c \<notin> pq_fingerprint ` set (draw k (pq_fingerprint c # used) candidates)"
      by auto
    then show ?thesis using False 3 by simp
  qed
qed simp_all

lemma count_where_append [simp]:
  "count_where P (xs @ ys) = count_where P xs + count_where P ys"
  by (simp add: count_where_def)

lemma count_where_all:
  "(\<And>x. x \<in> set xs \<Longrightarrow> P x) \<Longrightarrow> count_where P xs = length xs"
  by (simp add: count_where_def)

lemma count_where_none:
  "(\<And>x. x \<in> set xs \<Longrightarrow> \<not> P x) \<Longrightarrow> count_where P xs = 0"
  by (simp add: count_where_def)

lemma assemble_topics_ok:
  assumes "\<And>t q. q \<in> set (byTopic t) \<Longrightarrow> pq_ut_number q = t"
    and "assemble_topics byTopic used rows = Inr qs"
  shows "distinct (map pq_fingerprint qs) \<and>
         pq_fingerprint ` set qs \<inter> set used = {} \<and>
         length qs = sum_list (map questions_per_exam rows) \<and>
         (\<forall>t. count_where (\<lambda>q. pq_ut_number q = t) qs = quota_of rows t)"
  using assms(2)
proof (induction rows arbitrary: used qs)
  case Nil
  then show ?case by (simp add: quota_of_def count_where_def)
next
  case (Cons row rows)
  let ?picked = "draw (questions_per_exam row) used (byTopic (cfg_ut_number row))"
  from Cons.prems have full: "\<not> length ?picked < questions_per_exam row"
    by (auto simp: Let_def split: if_splits)
  with draw_length [of "questions_per_exam row" used "byTopic (cfg_ut_number row)"]
  have len: "length ?picked = questions_per_exam row" by simp
  from Cons.prems full obtain rest
    where rest: "assemble_topics byTopic (map pq_fingerprint ?picked @ used) rows = Inr rest"
      and qs: "qs = ?picked @ rest"
    by (auto simp: Let_def split: sum.splits)
  note ih = Cons.IH [OF rest]
  have fresh: "pq_fingerprint ` set ?picked \<inter> set used = {}" by (rule draw_fresh)
  have dp: "distinct (map pq_fingerprint ?picked)" by (rule draw_distinct)
  have d: "distinct (map pq_fingerprint qs)"
    unfolding qs using dp ih by auto
  have f: "pq_fingerprint ` set qs \<inter> set used = {}"
    unfolding qs using fresh ih by auto
  have l: "length qs = sum_list (map questions_per_exam (row # rows))"
    unfolding qs using len ih by simp
  have topic: "\<And>q. q \<in> set ?picked \<Longrightarrow> pq_ut_number q = cfg_ut_number row"
    using draw_subset [of "questions_per_exam row" used "byTopic (cfg_ut_number row)"] assms(1)
    by blast
  have c: "count_where (\<lambda>q. pq_ut_number q = t) qs = quota_of (row # rows) t" for t
  proof (cases "cfg_ut_number row = t")
    case True
    have "count_where (\<lambda>q. pq_ut_number q = t) ?picked = length ?picked"
      by (rule count_where_all) (simp add: topic True [symmetric])
    then show ?thesis unfolding qs using ih len True by (simp add: quota_of_def)
  next
    case False
    have "count_where (\<lambda>q. pq_ut_number q = t) ?picked = 0"
      by (rule count_where_none) (use topic False in auto)
    then show ?thesis unfolding qs using ih False by (simp add: quota_of_def)
  qed
  show ?case using d f l c by blast
qed

lemma quotas_eq:
  "map questions_per_exam ut_configuration = [4, 2, 4, 2, 5, 10, 2, 3, 4, 5, 4]"
  by (simp add: ut_configuration_def ut_row_def)

lemma quota_of_row:
  "\<forall>row \<in> set ut_configuration. quota_of ut_configuration (cfg_ut_number row) = questions_per_exam row"
  by (simp add: ut_configuration_def ut_row_def quota_of_def)

lemma pool_ten_topic: "q \<in> set (pool_ten t) \<Longrightarrow> pq_ut_number q = t"
  by (auto simp: pool_ten_def)

lemma pool_ten_assembles: "assembled (assemble pool_ten rev)"
  by code_simp

lemma pool_three_fails:
  "assemble (\<lambda>t. take 3 (pool_ten t)) rev = Inl (InsufficientPoolError 1 3 4)"
  by code_simp

text \<open>
  Claim C3. Every successfully assembled exam has 45 questions, the sum of the eleven
  quotas 4, 2, 4, 2, 5, 10, 2, 3, 4, 5, 4 of \<open>ut_configuration\<close>; it holds of every unit
  exactly its quota; no two of its questions share a fingerprint; and its positions,
  numbered from 1, are those the table \<open>exam_questions\<close> admits. The pool is indexed by
  unit, and the shuffle permutes the exam.
\<close>

theorem assembled_exam_complete:
  assumes pool: "\<And>t q. q \<in> set (byTopic t) \<Longrightarrow> pq_ut_number q = t"
    and sh: "\<And>qs. mset (shuffle qs) = mset qs"
    and ok: "assemble byTopic shuffle = Inr ex"
  shows "length ex = 45 \<and>
         map questions_per_exam ut_configuration = [4, 2, 4, 2, 5, 10, 2, 3, 4, 5, 4] \<and>
         (\<forall>row \<in> set ut_configuration.
            count_where (\<lambda>q. pq_ut_number q = cfg_ut_number row) ex = questions_per_exam row) \<and>
         distinct (map pq_fingerprint ex) \<and>
         list_all question_order_check [1..<Suc (length ex)]"
proof -
  from ok obtain qs where qs: "assemble_topics byTopic [] ut_configuration = Inr qs"
    and ex: "ex = shuffle qs"
    by (auto simp: assemble_def split: sum.splits)
  have m: "mset ex = mset qs" unfolding ex by (rule sh)
  note facts = assemble_topics_ok [OF pool qs]
  have len: "length ex = length qs" using m by (rule mset_eq_length)
  have l: "length ex = 45" unfolding len using facts by (simp add: quotas_eq)
  have cnt: "count_where P ex = count_where P qs" for P
  proof -
    have "mset (filter P ex) = mset (filter P qs)" using m by (simp only: mset_filter)
    then show ?thesis unfolding count_where_def by (rule mset_eq_length)
  qed
  have c: "\<forall>row \<in> set ut_configuration.
            count_where (\<lambda>q. pq_ut_number q = cfg_ut_number row) ex = questions_per_exam row"
    unfolding cnt using facts quota_of_row by simp
  have "mset (map pq_fingerprint ex) = mset (map pq_fingerprint qs)"
    using m by (metis mset_map)
  then have "distinct (map pq_fingerprint ex) = distinct (map pq_fingerprint qs)"
    by (rule mset_eq_imp_distinct_iff)
  then have d: "distinct (map pq_fingerprint ex)" using facts by simp
  have o: "list_all question_order_check [1..<Suc (length ex)]"
    unfolding l by (simp add: list_all_iff question_order_check_def)
  show ?thesis using l quotas_eq c d o by blast
qed

theorem assembled_exam_complete_witness:
  "\<exists>ex. assemble pool_ten rev = Inr ex \<and> length ex = 45 \<and>
        count_where (\<lambda>q. pq_ut_number q = 6) ex = 10 \<and> distinct (map pq_fingerprint ex)"
proof -
  from pool_ten_assembles obtain ex where ex: "assemble pool_ten rev = Inr ex"
    by (auto simp: assembled_def split: sum.splits)
  have sh: "\<And>qs :: nat pool_question list. mset (rev qs) = mset qs" by simp
  note t = assembled_exam_complete [OF pool_ten_topic sh ex]
  have "ut_row 6 10 (Some 5) True \<in> set ut_configuration" by (simp add: ut_configuration_def)
  with t have "count_where (\<lambda>q. pq_ut_number q = cfg_ut_number (ut_row 6 10 (Some 5) True)) ex
      = questions_per_exam (ut_row 6 10 (Some 5) True)" by blast
  then have "count_where (\<lambda>q. pq_ut_number q = 6) ex = 10" by (simp add: ut_row_def)
  then show ?thesis using ex t by blast
qed

section \<open>Properties of the explanation cache\<close>



















section \<open>Properties of the exam session\<close>

lemma map_of_js_set: "map_of (js_set m k v) = (map_of m)(k \<mapsto> v)"
  by (induction m) (auto simp: fun_upd_twist)

lemma running_system_eq:
  "running_system =
     \<lparr>currentExam = Some exam_two, userAnswers = [], examTimer = Some 1, intervals = [1],
      nextInterval = 2, timeRemaining = 5400, examResults = None, visible = ExamSection\<rparr>"
  by (simp add: running_system_def startNewExam_def startTimer_def initial_system_def)

lemma paused_system_eq:
  "paused_system =
     \<lparr>currentExam = Some exam_two, userAnswers = [], examTimer = None, intervals = [],
      nextInterval = 2, timeRemaining = 5400, examResults = None, visible = ExamSection\<rparr>"
  by (simp add: paused_system_def running_system_eq pauseExam_def clearInterval_def)

lemma tick_above_one:
  "1 < timeRemaining s \<Longrightarrow> tick s c r = Inr (s\<lparr>timeRemaining := timeRemaining s - 1\<rparr>)"
  by (simp add: tick_def Let_def)

lemma tick_at_one:
  "timeRemaining s \<le> 1 \<Longrightarrow> tick s c r = timeUp (s\<lparr>timeRemaining := timeRemaining s - 1\<rparr>) c r"
  by (simp add: tick_def Let_def)

lemma ticks_count:
  "int n < timeRemaining s \<Longrightarrow> ticks n s c r = Inr (s\<lparr>timeRemaining := timeRemaining s - int n\<rparr>)"
proof (induction n arbitrary: s)
  case 0
  then show ?case by simp
next
  case (Suc n)
  then have "1 < timeRemaining s" by simp
  then have t: "tick s c r = Inr (s\<lparr>timeRemaining := timeRemaining s - 1\<rparr>)"
    by (rule tick_above_one)
  have "int n < timeRemaining (s\<lparr>timeRemaining := timeRemaining s - 1\<rparr>)"
    using Suc.prems by simp
  from Suc.IH [OF this] show ?case by (simp add: t algebra_simps)
qed

lemma pauseExam_running:
  "examTimer s = Some h \<Longrightarrow>
   intervals (pauseExam s) = removeAll h (intervals s) \<and>
   examTimer (pauseExam s) = None \<and> timeRemaining (pauseExam s) = timeRemaining s"
  by (simp add: pauseExam_def clearInterval_def)

lemma clearInterval_fields:
  "visible (clearInterval h s) = visible s" "examTimer (clearInterval h s) = examTimer s"
  "currentExam (clearInterval h s) = currentExam s" "userAnswers (clearInterval h s) = userAnswers s"
  "timeRemaining (clearInterval h s) = timeRemaining s"
  by (simp_all add: clearInterval_def split: option.splits)

lemma clearInterval_twice: "clearInterval h (clearInterval h s) = clearInterval h s"
  by (simp add: clearInterval_def split: option.splits)

text \<open>
  The callback that brings the countdown to zero or below: \<open>timeUp\<close> clears the interval
  and \<open>finishExam\<close> takes over.
\<close>

lemma tick_at_zero:
  assumes "timeRemaining s \<le> 1"
  shows "tick s c r =
     (case currentExam s of
        None \<Rightarrow> Inl TypeError
      | Some ex \<Rightarrow>
          if length (js_keys (userAnswers s)) < length (questions ex) \<and> \<not> c
          then Inr (startTimer (clearInterval (examTimer s) (s\<lparr>timeRemaining := timeRemaining s - 1\<rparr>)))
          else (case r of
                  SubmitOk x \<Rightarrow>
                    Inr ((clearInterval (examTimer s) (s\<lparr>timeRemaining := timeRemaining s - 1\<rparr>))
                           \<lparr>examResults := Some x, visible := ResultsSection\<rparr>)
                | SubmitUnshown x \<Rightarrow>
                    Inr ((clearInterval (examTimer s) (s\<lparr>timeRemaining := timeRemaining s - 1\<rparr>))
                           \<lparr>examResults := Some x\<rparr>)
                | SubmitError \<Rightarrow>
                    Inr (clearInterval (examTimer s) (s\<lparr>timeRemaining := timeRemaining s - 1\<rparr>))))"
proof -
  let ?s1 = "s\<lparr>timeRemaining := timeRemaining s - 1\<rparr>"
  let ?s0 = "clearInterval (examTimer s) ?s1"
  have t: "tick s c r = finishExam ?s0 c r"
    using assms by (simp add: tick_def timeUp_def Let_def)
  have f: "clearInterval (examTimer ?s0) ?s0 = ?s0"
    by (simp add: clearInterval_fields clearInterval_twice)
  show ?thesis
    unfolding t finishExam_def Let_def f
    by (simp add: clearInterval_fields split: option.splits submit_response.splits)
qed

text \<open>
  Claim C6 as written fails: two running exams that differ only in the remaining time
  the client holds; at the next callback of the timer the one with one second left is
  finished and its results are shown, the other goes on.
\<close>

theorem server_side_timing_counterexample:
  "visible_after (tick (running_system\<lparr>timeRemaining := 1\<rparr>) True (SubmitOk 80)) = Some ResultsSection \<and>
   visible_after (tick (running_system\<lparr>timeRemaining := 5400\<rparr>) True (SubmitOk 80)) = Some ExamSection"
  by (simp add: running_system_eq tick_def timeUp_def finishExam_def clearInterval_def
      visible_after_def Let_def exam_two_def js_keys_def)

text \<open>
  Claim C6, amended. The time that decides the timeout is the countdown of the client:
  it is set to 90 minutes when the exam starts, every callback of the running timer
  takes one second off, and pausing removes the interval and leaves the countdown as it
  is. The callback that brings the countdown to zero or below clears the interval and
  runs \<open>finishExam\<close>, with no server time consulted: with no exam loaded it throws; when
  questions are unanswered and the user declines the dialog, the timer is started again;
  otherwise the answers are submitted, and the results are shown when the submission
  succeeds and the results can be displayed, while after a failed submission the exam
  stays on the screen with its interval cleared.
\<close>

theorem client_countdown:
  "timeRemaining (startNewExam s (Some ex)) = 90 * 60 \<and>
   (1 < timeRemaining s \<longrightarrow> tick s c r = Inr (s\<lparr>timeRemaining := timeRemaining s - 1\<rparr>)) \<and>
   (int n < timeRemaining s \<longrightarrow> ticks n s c r = Inr (s\<lparr>timeRemaining := timeRemaining s - int n\<rparr>)) \<and>
   (examTimer s = Some h \<longrightarrow>
      intervals (pauseExam s) = removeAll h (intervals s) \<and>
      timeRemaining (pauseExam s) = timeRemaining s) \<and>
   (timeRemaining s \<le> 1 \<and> currentExam s = None \<longrightarrow> tick s c r = Inl TypeError) \<and>
   (timeRemaining s \<le> 1 \<and> currentExam s = Some ex' \<and>
      length (js_keys (userAnswers s)) < length (questions ex') \<and> \<not> c \<longrightarrow>
      tick s c r =
        Inr (startTimer (clearInterval (examTimer s) (s\<lparr>timeRemaining := timeRemaining s - 1\<rparr>)))) \<and>
   (timeRemaining s \<le> 1 \<and> currentExam s = Some ex' \<and>
      (length (questions ex') \<le> length (js_keys (userAnswers s)) \<or> c) \<longrightarrow>
      tick s c (SubmitOk x) =
        Inr ((clearInterval (examTimer s) (s\<lparr>timeRemaining := timeRemaining s - 1\<rparr>))
               \<lparr>examResults := Some x, visible := ResultsSection\<rparr>) \<and>
      tick s c (SubmitUnshown x) =
        Inr ((clearInterval (examTimer s) (s\<lparr>timeRemaining := timeRemaining s - 1\<rparr>))
               \<lparr>examResults := Some x\<rparr>) \<and>
      tick s c SubmitError =
        Inr (clearInterval (examTimer s) (s\<lparr>timeRemaining := timeRemaining s - 1\<rparr>)))"
proof -
  have a: "timeRemaining (startNewExam s (Some ex)) = 90 * 60"
    by (simp add: startNewExam_def startTimer_def)
  have z: "timeRemaining s \<le> 1 \<and> currentExam s = None \<longrightarrow> tick s c r = Inl TypeError"
    by (simp add: tick_at_zero)
  have d: "timeRemaining s \<le> 1 \<and> currentExam s = Some ex' \<and>
      length (js_keys (userAnswers s)) < length (questions ex') \<and> \<not> c \<longrightarrow>
      tick s c r =
        Inr (startTimer (clearInterval (examTimer s) (s\<lparr>timeRemaining := timeRemaining s - 1\<rparr>)))"
    by (simp add: tick_at_zero)
  have f: "timeRemaining s \<le> 1 \<and> currentExam s = Some ex' \<and>
      (length (questions ex') \<le> length (js_keys (userAnswers s)) \<or> c) \<longrightarrow>
      tick s c (SubmitOk x) =
        Inr ((clearInterval (examTimer s) (s\<lparr>timeRemaining := timeRemaining s - 1\<rparr>))
               \<lparr>examResults := Some x, visible := ResultsSection\<rparr>) \<and>
      tick s c (SubmitUnshown x) =
        Inr ((clearInterval (examTimer s) (s\<lparr>timeRemaining := timeRemaining s - 1\<rparr>))
               \<lparr>examResults := Some x\<rparr>) \<and>
      tick s c SubmitError =
        Inr (clearInterval (examTimer s) (s\<lparr>timeRemaining := timeRemaining s - 1\<rparr>))"
    by (auto simp: tick_at_zero)
  show ?thesis
    using a tick_above_one [of s c r] ticks_count [of n s c r] pauseExam_running [of s h] z d f
    by blast
qed

theorem client_countdown_witness:
  "timeRemaining running_system = 5400 \<and>
   ticks 10 running_system True (SubmitOk 80) = Inr (running_system\<lparr>timeRemaining := 5390\<rparr>) \<and>
   intervals (pauseExam running_system) = [] \<and>
   timeRemaining (pauseExam running_system) = 5400 \<and>
   tick (running_system\<lparr>timeRemaining := 1\<rparr>) True (SubmitOk 80)
     = Inr (running_system\<lparr>timeRemaining := 0, intervals := [], examResults := Some 80,
                             visible := ResultsSection\<rparr>) \<and>
   tick (running_system\<lparr>timeRemaining := 1\<rparr>) True SubmitError
     = Inr (running_system\<lparr>timeRemaining := 0, intervals := []\<rparr>) \<and>
   tick (running_system\<lparr>timeRemaining := 1\<rparr>) False SubmitError
     = Inr (running_system\<lparr>timeRemaining := 0, intervals := [2], examTimer := Some 2,
                             nextInterval := 3\<rparr>)"
proof -
  note t = client_countdown [of running_system exam_two True "SubmitOk 80" 10 1]
  have r: "timeRemaining running_system = 5400" "examTimer running_system = Some 1"
    "intervals running_system = [1]"
    by (simp_all add: running_system_eq)
  from t r have a: "ticks 10 running_system True (SubmitOk 80)
      = Inr (running_system\<lparr>timeRemaining := 5390\<rparr>)" by simp
  from t r have b: "intervals (pauseExam running_system) = []"
    "timeRemaining (pauseExam running_system) = 5400" by simp_all
  let ?z = "running_system\<lparr>timeRemaining := 1\<rparr>"
  have z: "timeRemaining ?z \<le> 1" "currentExam ?z = Some exam_two"
    "length (js_keys (userAnswers ?z)) < length (questions exam_two)"
    by (simp_all add: running_system_eq exam_two_def js_keys_def)
  note u = client_countdown [of ?z exam_two True SubmitError 0 1 exam_two 80]
  note w = client_countdown [of ?z exam_two False SubmitError 0 1 exam_two 80]
  from u z have e: "tick ?z True (SubmitOk 80)
     = Inr (running_system\<lparr>timeRemaining := 0, intervals := [], examResults := Some 80,
                             visible := ResultsSection\<rparr>)"
    and f: "tick ?z True SubmitError = Inr (running_system\<lparr>timeRemaining := 0, intervals := []\<rparr>)"
    by (simp_all add: running_system_eq clearInterval_def)
  from w z have g: "tick ?z False SubmitError
     = Inr (running_system\<lparr>timeRemaining := 0, intervals := [2], examTimer := Some 2,
                             nextInterval := 3\<rparr>)"
    by (simp add: running_system_eq clearInterval_def startTimer_def)
  show ?thesis using r(1) a b e f g by blast
qed

lemma finishExam_keeps_paused:
  assumes "finishExam s c r = Inr s'" and "is_paused s'"
  shows "is_paused s"
proof -
  from assms(1) obtain ex where ex: "currentExam s = Some ex"
    by (auto simp: finishExam_def Let_def clearInterval_fields split: option.splits)
  let ?s1 = "clearInterval (examTimer s) s"
  have s1: "visible ?s1 = visible s" "examTimer ?s1 = examTimer s" "currentExam ?s1 = Some ex"
    using ex by (simp_all add: clearInterval_fields)
  from assms(1) s1 consider "s' = startTimer ?s1"
    | x where "s' = ?s1\<lparr>examResults := Some x, visible := ResultsSection\<rparr>"
    | x where "s' = ?s1\<lparr>examResults := Some x\<rparr>"
    | "s' = ?s1"
    by (auto simp: finishExam_def Let_def split: if_splits submit_response.splits)
  then show ?thesis
  proof cases
    case 1
    then show ?thesis using assms(2) by (simp add: is_paused_def startTimer_def)
  next
    case 2
    then show ?thesis using assms(2) by (simp add: is_paused_def)
  next
    case 3
    then show ?thesis using assms(2) s1 by (auto simp: is_paused_def)
  next
    case 4
    then show ?thesis using assms(2) s1 by (auto simp: is_paused_def)
  qed
qed

text \<open>A step that enters the paused state is \<open>pauseExam\<close> on an exam in progress.\<close>

lemma paso_enters_paused:
  assumes "paso s s'" and "is_paused s'" and "\<not> is_paused s"
  shows "is_in_progress s \<and> s' = pauseExam s"
  using assms(1)
proof (cases rule: paso.cases)
  case (paso_start response)
  then show ?thesis using assms(2,3)
    by (cases response) (auto simp: startNewExam_def startTimer_def is_paused_def)
next
  case (paso_answer questionId answer)
  then show ?thesis using assms(2,3) by (simp add: saveAnswer_def is_paused_def)
next
  case paso_pause
  then show ?thesis using assms(2,3)
    by (cases "examTimer s")
       (auto simp: pauseExam_def startTimer_def clearInterval_def is_paused_def is_in_progress_def)
next
  case (paso_finish c r)
  from finishExam_keeps_paused [OF this assms(2)] show ?thesis using assms(3) by simp
next
  case (paso_finish_throws c r e)
  then show ?thesis using assms(2,3)
    by (simp add: clearInterval_fields is_paused_def)
next
  case (paso_tick h c r)
  let ?s1 = "s\<lparr>timeRemaining := timeRemaining s - 1\<rparr>"
  let ?s2 = "clearInterval (examTimer ?s1) ?s1"
  have v: "visible ?s2 = visible s" "examTimer ?s2 = examTimer s"
    by (simp_all add: clearInterval_fields)
  show ?thesis
  proof (cases "timeRemaining s \<le> 1")
    case True
    then have "finishExam ?s2 c r = Inr s'"
      using paso_tick(2) by (simp add: tick_def timeUp_def Let_def)
    from finishExam_keeps_paused [OF this assms(2)] show ?thesis
      using v assms(3) by (simp add: is_paused_def)
  next
    case False
    then have "s' = ?s1" using paso_tick(2) by (simp add: tick_def Let_def)
    then show ?thesis using assms(2,3) by (simp add: is_paused_def)
  qed
next
  case (paso_tick_throws h c r e)
  then show ?thesis using assms(2,3)
    by (simp add: clearInterval_fields is_paused_def)
next
  case paso_logout
  then show ?thesis using assms(2) by (simp add: handleLogout_def is_paused_def)
next
  case paso_dashboard
  then show ?thesis using assms(2) by (simp add: showDashboard_def is_paused_def)
next
  case paso_stats
  then show ?thesis using assms(2) by (simp add: showPERStats_def is_paused_def)
next
  case paso_navigate
  then show ?thesis using assms(2,3) by simp
qed

lemma pauseExam_pauses: "is_in_progress s \<Longrightarrow> is_paused (pauseExam s)"
  by (auto simp: is_paused_def is_in_progress_def pauseExam_def clearInterval_def)

lemma pauseExam_resumes: "is_paused s \<Longrightarrow> is_in_progress (pauseExam s)"
  by (simp add: is_paused_def is_in_progress_def pauseExam_def startTimer_def)

lemma finishExam_from_paused:
  assumes "is_paused s" and "currentExam s = Some ex"
    and "length (questions ex) \<le> length (js_keys (userAnswers s)) \<or> c"
  shows "finishExam s c (SubmitOk r) = Inr (s\<lparr>examResults := Some r, visible := ResultsSection\<rparr>)"
  using assms by (auto simp: finishExam_def is_paused_def clearInterval_def Let_def)

lemma status_check_named:
  assumes "user_exams_status_check st"
  shows "st = None \<or> (\<exists>x. st = Some (status_name x))"
proof (cases st)
  case None
  then show ?thesis by simp
next
  case (Some name)
  with assms consider "name = ''in_progress''" | "name = ''completed''" | "name = ''abandoned''"
    by (auto simp: user_exams_status_check_def)
  then show ?thesis
  proof cases
    case 1
    then have "st = Some (status_name in_progress)" using Some by simp
    then show ?thesis by blast
  next
    case 2
    then have "st = Some (status_name completed)" using Some by simp
    then show ?thesis by blast
  next
    case 3
    then have "st = Some (status_name abandoned)" using Some by simp
    then show ?thesis by blast
  qed
qed

text \<open>
  The in-progress state of the front end is told by \<open>examTimer\<close> alone. After a
  submission that fails, \<open>finishExam\<close> has cleared the interval and \<open>examTimer\<close> still
  holds its handle: the exam counts as in progress with no timer running, and
  \<open>pauseExam\<close> pauses it.
\<close>

lemma pause_with_stale_handle:
  "finishExam running_system True SubmitError = Inr (running_system\<lparr>intervals := []\<rparr>) \<and>
   is_in_progress (running_system\<lparr>intervals := []\<rparr>) \<and>
   is_paused (pauseExam (running_system\<lparr>intervals := []\<rparr>))"
  by (simp add: running_system_eq finishExam_def clearInterval_def Let_def is_in_progress_def
      is_paused_def pauseExam_def)

text \<open>
  Claim C7 as written fails: a paused exam is finished by \<open>finishExam\<close> in one step, the
  results are shown, and the exam has not been in progress again; and the column
  \<open>user_exams.status\<close> admits \<open>NULL\<close>, which is none of the six statuses.
\<close>

theorem paused_only_resumes_counterexample:
  "is_paused paused_system \<and>
   finishExam paused_system True (SubmitOk 80)
     = Inr (paused_system\<lparr>examResults := Some 80, visible := ResultsSection\<rparr>) \<and>
   is_finished (paused_system\<lparr>examResults := Some 80, visible := ResultsSection\<rparr>) \<and>
   \<not> is_in_progress (paused_system\<lparr>examResults := Some 80, visible := ResultsSection\<rparr>) \<and>
   user_exams_status_check None"
  by (simp add: paused_system_eq is_paused_def is_finished_def is_in_progress_def finishExam_def
      clearInterval_def Let_def user_exams_status_check_def)

text \<open>
  Claim C7, amended. A stored status is \<open>NULL\<close> or one of the six statuses. In the front
  end, where an exam is in progress while it is shown and \<open>examTimer\<close> holds a handle,
  and paused while it is shown and \<open>examTimer\<close> is \<open>null\<close>, a step enters the paused
  state only from an exam in progress and only by \<open>pauseExam\<close>; \<open>pauseExam\<close> pauses
  every exam in progress and takes a paused exam back to in progress; and \<open>finishExam\<close>,
  when every question is answered or the user confirms, and the submission succeeds,
  takes a paused exam directly to its results.
\<close>

theorem paused_transitions:
  "(user_exams_status_check st \<longrightarrow> st = None \<or> (\<exists>x. st = Some (status_name x))) \<and>
   (paso s s' \<and> is_paused s' \<and> \<not> is_paused s \<longrightarrow> is_in_progress s \<and> s' = pauseExam s) \<and>
   (is_in_progress s \<longrightarrow> is_paused (pauseExam s)) \<and>
   (is_paused s \<longrightarrow> is_in_progress (pauseExam s)) \<and>
   (is_paused s \<and> currentExam s = Some ex \<and>
      (length (questions ex) \<le> length (js_keys (userAnswers s)) \<or> c) \<longrightarrow>
      finishExam s c (SubmitOk r) = Inr (s\<lparr>examResults := Some r, visible := ResultsSection\<rparr>))"
  using status_check_named [of st] paso_enters_paused [of s s'] pauseExam_pauses [of s]
    pauseExam_resumes [of s] finishExam_from_paused [of s ex c r]
  by blast

theorem paused_transitions_witness:
  "paso running_system paused_system \<and> is_paused paused_system \<and>
   is_in_progress running_system \<and> paused_system = pauseExam running_system \<and>
   is_in_progress (pauseExam paused_system) \<and>
   user_exams_status_check (Some ''completed'') \<and>
   finishExam paused_system True (SubmitOk 80)
     = Inr (paused_system\<lparr>examResults := Some 80, visible := ResultsSection\<rparr>)"
proof -
  have p: "paso running_system paused_system"
    unfolding paused_system_def by (rule paso_pause)
  have q: "is_paused paused_system" by (simp add: paused_system_eq is_paused_def)
  have n: "\<not> is_paused running_system" by (simp add: running_system_eq is_paused_def)
  have k: "user_exams_status_check (Some ''completed'')"
    by (simp add: user_exams_status_check_def)
  note t = paused_transitions [of "Some ''completed''" running_system paused_system exam_two True 80]
  from t p q n have r: "is_in_progress running_system" "paused_system = pauseExam running_system"
    by blast+
  note u = paused_transitions [of "Some ''completed''" paused_system paused_system exam_two True 80]
  from u q have v: "is_in_progress (pauseExam paused_system)" by blast
  have x: "currentExam paused_system = Some exam_two" by (simp add: paused_system_eq)
  from u q x have f: "finishExam paused_system True (SubmitOk 80)
     = Inr (paused_system\<lparr>examResults := Some 80, visible := ResultsSection\<rparr>)" by blast
  show ?thesis using p q r v k f by blast
qed

text \<open>
  Claim C8 as written fails: while the exam is paused, \<open>saveAnswer\<close> records the letter
  \<open>z\<close> for a question whose letters are \<open>a\<close>, \<open>b\<close>, \<open>c\<close>; and the constraint of the
  table admits \<open>d\<close> for that question.
\<close>

theorem saveAnswer_validates_counterexample:
  "is_paused paused_system \<and>
   option_letters (detail ''q1'' 1 ''a'') = [''a'', ''b'', ''c''] \<and>
   map_of (userAnswers (saveAnswer paused_system ''q1'' ''z'')) ''q1'' = Some ''z'' \<and>
   selected_answer_check ''d''"
  by (simp add: paused_system_eq is_paused_def option_letters_def detail_def truthy_def
      saveAnswer_def selected_answer_check_def)

text \<open>
  Claim C8, amended. \<open>saveAnswer\<close> is accepted in every state and for every letter: it
  records the letter as the answer of the question, replacing an earlier one, leaves
  the answers of all other questions and the rest of the state unchanged, and rejects
  nothing. The constraint of the table \<open>user_answers\<close> admits exactly the letters
  \<open>a\<close>, \<open>b\<close>, \<open>c\<close>, \<open>d\<close>.
\<close>

theorem saveAnswer_overwrites:
  "map_of (userAnswers (saveAnswer s q l)) q = Some l \<and>
   (q' \<noteq> q \<longrightarrow> map_of (userAnswers (saveAnswer s q l)) q' = map_of (userAnswers s) q') \<and>
   (saveAnswer s q l)\<lparr>userAnswers := userAnswers s\<rparr> = s \<and>
   (selected_answer_check l \<longleftrightarrow> l \<in> set [''a'', ''b'', ''c'', ''d''])"
  by (simp add: saveAnswer_def map_of_js_set selected_answer_check_def)

theorem saveAnswer_overwrites_witness:
  "map_of (userAnswers (saveAnswer (saveAnswer paused_system ''q2'' ''b'') ''q1'' ''z'')) ''q1''
     = Some ''z'' \<and>
   map_of (userAnswers (saveAnswer (saveAnswer paused_system ''q2'' ''b'') ''q1'' ''z'')) ''q2''
     = Some ''b''"
proof -
  note t = saveAnswer_overwrites [of "saveAnswer paused_system ''q2'' ''b''" "''q1''" "''z''" "''q2''"]
  note u = saveAnswer_overwrites [of paused_system "''q2''" "''b''" "''q1''"]
  have "''q2'' \<noteq> ''q1''" by simp
  with t u show ?thesis by simp
qed

end
